theory Spec2Isabelle
  imports Main "HOL-Library.Sublist" "HOL-Library.Char_ord" "HOL-Library.List_Lexorder"
begin

section \<open>Strings of the script format\<close>

text \<open>
  A JavaScript string is modelled as a \<^typ>\<open>string\<close>, one \<^typ>\<open>char\<close> per code unit.
  The default \<open>Array.prototype.sort()\<close> compares strings code unit by code unit, a proper
  prefix first: that is the lexicographic order on \<^typ>\<open>char list\<close>.
\<close>

definition UP :: string where
  "UP = ''-- +migrator UP''"

definition DOWN :: string where
  "DOWN = ''-- +migrator DOWN''"

definition nl :: string where
  "nl = [CHR 0x0A]"

text \<open>
  \<open>split_at sep s\<close> finds the first occurrence of \<open>sep\<close> in \<open>s\<close> and returns the text before
  it and the text after it.
\<close>

fun split_at :: "string \<Rightarrow> string \<Rightarrow> (string \<times> string) option" where
  "split_at sep [] = (if sep = [] then Some ([], []) else None)"
| "split_at sep (c # cs) =
     (if prefix sep (c # cs) then Some ([], drop (length sep) (c # cs))
      else (case split_at sep cs of
              None \<Rightarrow> None
            | Some (a, b) \<Rightarrow> Some (c # a, b)))"

text \<open>
  \<open>String.prototype.split(separator)\<close> with a string separator and no limit: the pieces
  between the non-overlapping occurrences of the separator, found left to right. With the
  empty separator the string is split into its code units.
\<close>

function split_js :: "string \<Rightarrow> string \<Rightarrow> string list" where
  "split_js sep s =
     (if sep = [] then map (\<lambda>c. [c]) s
      else (case split_at sep s of
              None \<Rightarrow> [s]
            | Some (a, b) \<Rightarrow> a # split_js sep b))"
  by pat_completeness auto
termination
proof -
  have shorter: "length b < length s"
    if "split_at sep s = Some (a, b)" and "sep \<noteq> []" for sep s a b
    using that
  proof (induction s arbitrary: a)
    case Nil
    then show ?case by simp
  next
    case (Cons c cs)
    show ?case
    proof (cases "prefix sep (c # cs)")
      case True
      with Cons.prems show ?thesis by (cases sep) auto
    next
      case False
      with Cons.prems obtain a' where "split_at sep cs = Some (a', b)"
        by (auto split: option.splits)
      with Cons.IH Cons.prems(2) have "length b < length cs" by blast
      then show ?thesis by simp
    qed
  qed
  show ?thesis
    by (relation "measure (\<lambda>(sep, s). length s)") (auto dest: shorter)
qed

declare split_js.simps [simp del]

text \<open>\<open>pieces[1] || ''\<close> and \<open>pieces[0] || ''\<close>: a missing piece reads as the empty string.\<close>

fun second_or_empty :: "string list \<Rightarrow> string" where
  "second_or_empty (p # q # ps) = q"
| "second_or_empty ps = []"

fun first_or_empty :: "string list \<Rightarrow> string" where
  "first_or_empty (p # ps) = p"
| "first_or_empty [] = []"

text \<open>The SQL that \<open>migrateUp\<close> runs for a file (lines 90-91 of index.ts).\<close>

definition up_sql :: "string \<Rightarrow> string" where
  "up_sql migrationScripts =
     (let sqls = second_or_empty (split_js UP migrationScripts)
      in first_or_empty (split_js DOWN sqls))"

text \<open>The SQL that \<open>migrateDown\<close> and \<open>migrateReset\<close> run for a file (lines 124-125, 172-173).\<close>

definition down_sql :: "string \<Rightarrow> string" where
  "down_sql migrationScripts =
     (let sqls = second_or_empty (split_js DOWN migrationScripts)
      in first_or_empty (split_js UP sqls))"

text \<open>\<open>file.split('_')[0]\<close>: the file name up to its first underscore.\<close>

definition version_of :: "string \<Rightarrow> string" where
  "version_of file = takeWhile (\<lambda>c. c \<noteq> CHR ''_'') file"

definition is_sql :: "string \<Rightarrow> bool" where
  "is_sql file = suffix ''.sql'' file"

text \<open>The template that \<open>generateMigration\<close> writes (lines 197-207).\<close>

definition template :: string where
  "template =
     ''-- +migrator UP'' @ nl @
     ''-- +migrator statement BEGIN'' @ nl @
     nl @
     ''-- +migrator statement END'' @ nl @
     nl @
     nl @
     ''-- +migrator DOWN'' @ nl @
     ''-- +migrator statement BEGIN'' @ nl @
     nl @
     ''-- +migrator statement END'' @ nl"

section \<open>Ledger, script store and database\<close>

text \<open>
  \<open>type\<close> is one of the strings \<open>migration\<close> and \<open>seed\<close> (\<open>runMigrations\<close> exits on any other
  value before an action runs); the ledger table of a kind is \<open>node_migrator_<type>s\<close>.
\<close>

datatype kind = Migration | Seed

text \<open>
  A ledger row. The \<open>BIGSERIAL\<close> column \<open>id\<close> is never read by the program and is left out.
\<close>

record row =
  version :: string
  created_at :: nat

text \<open>The statements the program sends through \<open>db.query\<close>.\<close>

datatype query =
    SelectVersions kind
  | SelectLatest kind
  | Script string
  | InsertVersion kind string
  | DeleteVersion kind string
  | DeleteAll kind
  | DropTable kind

text \<open>
  The world an action runs in:
  \<^item> \<open>tables k\<close> is the ledger table of kind \<open>k\<close>, in row order, \<open>None\<close> when the table does
    not exist;
  \<^item> \<open>userdb\<close> is the rest of the database, which only the scripts act on (a script is
    assumed not to touch the ledger tables);
  \<^item> \<open>dirs p\<close> is the listing of directory \<open>p\<close> in \<open>readdirSync\<close> order, each file name with
    its contents, \<open>None\<close> when the directory does not exist;
  \<^item> \<open>trace\<close> is the sequence of statements sent so far, each with whether it succeeded.
\<close>

record 'db world =
  tables :: "kind \<Rightarrow> row list option"
  userdb :: 'db
  dirs :: "string \<Rightarrow> (string \<times> string) list option"
  trace :: "(query \<times> bool) list"

datatype error =
    ConnectionRequired
  | CannotRevertSeeder
  | QueryError
  | NoRows
  | ScriptVersionNotFound string
  | MissingVersion "string list"
  | FsError
  | NameRequired

text \<open>
  How a call ends: it returns, it throws to its caller, or its own \<open>catch\<close> block logs the
  error and calls \<open>process.exit(1)\<close>.
\<close>

datatype outcome = Done | Threw error | Exit1 error

definition log :: "query \<Rightarrow> bool \<Rightarrow> 'db world \<Rightarrow> 'db world" where
  "log q ok w = w\<lparr>trace := trace w @ [(q, ok)]\<rparr>"

text \<open>\<open>SELECT version FROM node_migrator_<type>s\<close>: the versions in row order.\<close>

definition select_versions :: "kind \<Rightarrow> 'db world \<Rightarrow> string list option \<times> 'db world" where
  "select_versions k w =
     (case tables w k of
        None \<Rightarrow> (None, log (SelectVersions k) False w)
      | Some rows \<Rightarrow> (Some (map version rows), log (SelectVersions k) True w))"

text \<open>
  \<open>ORDER BY created_at DESC LIMIT 1\<close>: a row whose \<open>created_at\<close> is greatest; among equal
  timestamps the database may return any, the model takes the first in row order.
\<close>

fun newest :: "row list \<Rightarrow> row option" where
  "newest [] = None"
| "newest (r # rs) =
     (case newest rs of
        None \<Rightarrow> Some r
      | Some r' \<Rightarrow> if created_at r < created_at r' then Some r' else Some r)"

definition select_latest :: "kind \<Rightarrow> 'db world \<Rightarrow> string list option \<times> 'db world" where
  "select_latest k w =
     (case tables w k of
        None \<Rightarrow> (None, log (SelectLatest k) False w)
      | Some rows \<Rightarrow>
          (Some (case newest rows of None \<Rightarrow> [] | Some r \<Rightarrow> [version r]),
           log (SelectLatest k) True w))"

text \<open>
  \<open>db.query(sql)\<close> for the body of a script. The database is a parameter: \<open>exec db sql\<close> says
  whether the text runs without error and what the rest of the database is afterwards.
\<close>

definition run_script ::
  "('db \<Rightarrow> string \<Rightarrow> bool \<times> 'db) \<Rightarrow> string \<Rightarrow> 'db world \<Rightarrow> bool \<times> 'db world" where
  "run_script exec sql w =
     (case exec (userdb w) sql of
        (ok, db') \<Rightarrow> (ok, log (Script sql) ok (w\<lparr>userdb := db'\<rparr>)))"

text \<open>
  \<open>INSERT INTO node_migrator_<type>s (version) VALUES ($1)\<close>. The column \<open>created_at\<close>
  defaults to \<open>NOW()\<close>: \<open>now n\<close> is the server's clock when the statement number \<open>n\<close> runs.
\<close>

definition insert_version ::
  "(nat \<Rightarrow> nat) \<Rightarrow> kind \<Rightarrow> string \<Rightarrow> 'db world \<Rightarrow> bool \<times> 'db world" where
  "insert_version now k v w =
     (case tables w k of
        None \<Rightarrow> (False, log (InsertVersion k v) False w)
      | Some rows \<Rightarrow>
          (True, log (InsertVersion k v) True
             (w\<lparr>tables := (tables w)
                   (k \<mapsto> rows @ [\<lparr>version = v, created_at = now (length (trace w))\<rparr>])\<rparr>)))"

text \<open>\<open>DELETE FROM node_migrator_<type>s WHERE version = $1\<close>.\<close>

definition delete_version :: "kind \<Rightarrow> string \<Rightarrow> 'db world \<Rightarrow> bool \<times> 'db world" where
  "delete_version k v w =
     (case tables w k of
        None \<Rightarrow> (False, log (DeleteVersion k v) False w)
      | Some rows \<Rightarrow>
          (True, log (DeleteVersion k v) True
             (w\<lparr>tables := (tables w)(k \<mapsto> filter (\<lambda>r. version r \<noteq> v) rows)\<rparr>)))"

text \<open>\<open>DELETE FROM node_migrator_<type>s\<close>.\<close>

definition delete_all :: "kind \<Rightarrow> 'db world \<Rightarrow> bool \<times> 'db world" where
  "delete_all k w =
     (case tables w k of
        None \<Rightarrow> (False, log (DeleteAll k) False w)
      | Some rows \<Rightarrow> (True, log (DeleteAll k) True (w\<lparr>tables := (tables w)(k \<mapsto> [])\<rparr>)))"

text \<open>\<open>DROP TABLE IF EXISTS\<close>: succeeds whether or not the table exists.\<close>

definition drop_table :: "kind \<Rightarrow> 'db world \<Rightarrow> bool \<times> 'db world" where
  "drop_table k w = (True, log (DropTable k) True (w\<lparr>tables := (tables w)(k := None)\<rparr>))"

text \<open>
  \<open>fs.readdirSync(scriptsDir)\<close> and \<open>fs.readFileSync(join(scriptsDir, file))\<close> for a name of
  that listing.
\<close>

definition readdirSync :: "'db world \<Rightarrow> string \<Rightarrow> string list option" where
  "readdirSync w scriptsDir = map_option (map fst) (dirs w scriptsDir)"

definition readFileSync :: "'db world \<Rightarrow> string \<Rightarrow> string \<Rightarrow> string option" where
  "readFileSync w scriptsDir file =
     (case dirs w scriptsDir of None \<Rightarrow> None | Some d \<Rightarrow> map_of d file)"

text \<open>Replacing or adding one entry of a listing.\<close>

fun writeFile :: "string \<Rightarrow> string \<Rightarrow> (string \<times> string) list \<Rightarrow> (string \<times> string) list" where
  "writeFile file data [] = [(file, data)]"
| "writeFile file data ((f, c) # d) =
     (if f = file then (f, data) # d else (f, c) # writeFile file data d)"

text \<open>
  Paths, with \<open>/\<close> as the separator. \<open>dirname p\<close> is the path up to the last separator and
  \<open>child dir seg\<close> the path of \<open>seg\<close> in \<open>dir\<close>. \<open>join(scriptsDir, file)\<close> resolves the segments
  of \<open>file\<close> lexically: \<open>walk\<close> follows all but the last from \<open>scriptsDir\<close>, an empty segment
  or \<open>.\<close> staying and \<open>..\<close> going up, and \<open>target\<close> gives the directory reached and the last
  segment, the name of the file in it.
\<close>

definition dirname :: "string \<Rightarrow> string" where
  "dirname p =
     (case split_at ''/'' (rev p) of
        None \<Rightarrow> ''.''
      | Some (a, b) \<Rightarrow> if b = [] then ''/'' else rev b)"

definition child :: "string \<Rightarrow> string \<Rightarrow> string" where
  "child dir seg = (if dir = ''/'' then ''/'' @ seg else dir @ ''/'' @ seg)"

fun walk :: "string \<Rightarrow> string list \<Rightarrow> string" where
  "walk dir [] = dir"
| "walk dir (seg # segs) =
     walk (if seg = [] \<or> seg = ''.'' then dir
           else if seg = ''..'' then dirname dir
           else child dir seg) segs"

definition target :: "string \<Rightarrow> string \<Rightarrow> string \<times> string" where
  "target scriptsDir file =
     (let segs = split_js ''/'' file in (walk scriptsDir (butlast segs), last segs))"

text \<open>
  \<open>fs.existsSync\<close> and \<open>fs.mkdirSync(scriptsDir, { recursive: true })\<close>: the directory and
  each of its parents that is missing is created empty. \<open>parent_dirs p\<close> are the paths that
  end before a separator of \<open>p\<close>.
\<close>

definition existsSync :: "'db world \<Rightarrow> string \<Rightarrow> bool" where
  "existsSync w p = (dirs w p \<noteq> None)"

definition parent_dirs :: "string \<Rightarrow> string list" where
  "parent_dirs p = map (\<lambda>i. take i p) (filter (\<lambda>i. p ! i = CHR ''/'') [1..<length p])"

definition mkdirSync :: "'db world \<Rightarrow> string \<Rightarrow> 'db world" where
  "mkdirSync w p =
     w\<lparr>dirs := (\<lambda>q. if (q = p \<or> q \<in> set (parent_dirs p)) \<and> dirs w q = None
                     then Some [] else dirs w q)\<rparr>"

text \<open>
  \<open>fs.writeFileSync(join(scriptsDir, file), data)\<close>. A path that names a file of the listing
  of \<open>scriptsDir\<close> is that file (as \<open>readFileSync\<close> reads it) and its contents are replaced;
  otherwise the file is created in the directory of the path, and the call throws
  (\<open>ENOENT\<close>, \<open>None\<close> here) when that directory does not exist. Only directories and the
  regular files in them are modelled: permissions, limits on the length of a name, and a
  path that names a file where a directory is looked up or a directory where the file is
  written, are left out.
\<close>

definition writeFileSync :: "'db world \<Rightarrow> string \<Rightarrow> string \<Rightarrow> string \<Rightarrow> 'db world option" where
  "writeFileSync w scriptsDir file data =
     (case (if readFileSync w scriptsDir file \<noteq> None then (scriptsDir, file)
            else target scriptsDir file) of
        (dir, base) \<Rightarrow>
          (case dirs w dir of
             None \<Rightarrow> None
           | Some d \<Rightarrow> Some (w\<lparr>dirs := (dirs w)(dir \<mapsto> writeFile base data d)\<rparr>)))"

section \<open>The actions\<close>

subsection \<open>Up\<close>

text \<open>The \<open>files\<close> of \<open>migrateUp\<close> (lines 80-84).\<close>

definition up_files :: "string list \<Rightarrow> string list \<Rightarrow> string list" where
  "up_files versions names =
     sort (filter (\<lambda>file. \<not> (version_of file \<in> set versions) \<and> is_sql file) names)"

text \<open>The loop of \<open>migrateUp\<close> (lines 86-97).\<close>

fun up_loop ::
  "('db \<Rightarrow> string \<Rightarrow> bool \<times> 'db) \<Rightarrow> (nat \<Rightarrow> nat) \<Rightarrow> string \<Rightarrow> kind \<Rightarrow> string list \<Rightarrow>
   'db world \<Rightarrow> outcome \<times> 'db world" where
  "up_loop exec now scriptsDir k [] w = (Done, w)"
| "up_loop exec now scriptsDir k (file # files) w =
     (case readFileSync w scriptsDir file of
        None \<Rightarrow> (Exit1 FsError, w)
      | Some migrationScripts \<Rightarrow>
          (case run_script exec (up_sql migrationScripts) w of
             (False, w1) \<Rightarrow> (Exit1 QueryError, w1)
           | (True, w1) \<Rightarrow>
               (case insert_version now k (version_of file) w1 of
                  (False, w2) \<Rightarrow> (Exit1 QueryError, w2)
                | (True, w2) \<Rightarrow> up_loop exec now scriptsDir k files w2)))"

definition migrateUp ::
  "('db \<Rightarrow> string \<Rightarrow> bool \<times> 'db) \<Rightarrow> (nat \<Rightarrow> nat) \<Rightarrow> bool \<Rightarrow> string \<Rightarrow> kind \<Rightarrow>
   'db world \<Rightarrow> outcome \<times> 'db world" where
  "migrateUp exec now db scriptsDir k w =
     (if \<not> db then (Threw ConnectionRequired, w)
      else (case select_versions k w of
              (None, w1) \<Rightarrow> (Exit1 QueryError, w1)
            | (Some versions, w1) \<Rightarrow>
                (case readdirSync w1 scriptsDir of
                   None \<Rightarrow> (Exit1 FsError, w1)
                 | Some names \<Rightarrow> up_loop exec now scriptsDir k (up_files versions names) w1)))"

subsection \<open>Down\<close>

text \<open>
  \<open>ver\<close> is the \<open>version\<close> of line 115; reading \<open>res.rows[0].version\<close> when no row came back
  is a \<open>TypeError\<close>, caught like every other error of the \<open>try\<close> block.
\<close>

definition migrateDown ::
  "('db \<Rightarrow> string \<Rightarrow> bool \<times> 'db) \<Rightarrow> bool \<Rightarrow> string \<Rightarrow> kind \<Rightarrow>
   'db world \<Rightarrow> outcome \<times> 'db world" where
  "migrateDown exec db scriptsDir k w =
     (if k = Seed then (Threw CannotRevertSeeder, w)
      else if \<not> db then (Threw ConnectionRequired, w)
      else (case select_latest k w of
              (None, w1) \<Rightarrow> (Exit1 QueryError, w1)
            | (Some [], w1) \<Rightarrow> (Exit1 NoRows, w1)
            | (Some (ver # _), w1) \<Rightarrow>
                (case readdirSync w1 scriptsDir of
                   None \<Rightarrow> (Exit1 FsError, w1)
                 | Some names \<Rightarrow>
                     (case find (\<lambda>file. prefix (ver @ ''_'') file \<and> is_sql file) names of
                        None \<Rightarrow> (Exit1 (ScriptVersionNotFound ver), w1)
                      | Some file \<Rightarrow>
                          (case readFileSync w1 scriptsDir file of
                             None \<Rightarrow> (Exit1 FsError, w1)
                           | Some migrationScripts \<Rightarrow>
                               (case run_script exec (down_sql migrationScripts) w1 of
                                  (False, w2) \<Rightarrow> (Exit1 QueryError, w2)
                                | (True, w2) \<Rightarrow>
                                    (case delete_version k ver w2 of
                                       (False, w3) \<Rightarrow> (Exit1 QueryError, w3)
                                     | (True, w3) \<Rightarrow> (Done, w3))))))))"

subsection \<open>Reset\<close>

text \<open>The \<open>files\<close> of \<open>migrateReset\<close> (lines 150-154).\<close>

definition reset_files :: "string list \<Rightarrow> string list \<Rightarrow> string list" where
  "reset_files versions names =
     rev (sort (filter (\<lambda>file. version_of file \<in> set versions \<and> is_sql file) names))"

text \<open>The second loop of \<open>migrateReset\<close> (lines 168-177).\<close>

fun reset_loop ::
  "('db \<Rightarrow> string \<Rightarrow> bool \<times> 'db) \<Rightarrow> string \<Rightarrow> string list \<Rightarrow>
   'db world \<Rightarrow> outcome \<times> 'db world" where
  "reset_loop exec scriptsDir [] w = (Done, w)"
| "reset_loop exec scriptsDir (file # files) w =
     (case readFileSync w scriptsDir file of
        None \<Rightarrow> (Exit1 FsError, w)
      | Some migrationScripts \<Rightarrow>
          (case run_script exec (down_sql migrationScripts) w of
             (False, w1) \<Rightarrow> (Exit1 QueryError, w1)
           | (True, w1) \<Rightarrow> reset_loop exec scriptsDir files w1))"

text \<open>
  In \<open>migrateReset\<close> the first loop (lines 156-161) keeps the files that \<open>files\<close> includes,
  \<open>res.rowCount\<close> is the number of rows the \<open>SELECT\<close> returned, and the last statement
  (line 180) names the table \<open>node_migrator_seeds\<close>.
\<close>

definition migrateReset ::
  "('db \<Rightarrow> string \<Rightarrow> bool \<times> 'db) \<Rightarrow> bool \<Rightarrow> string \<Rightarrow> kind \<Rightarrow>
   'db world \<Rightarrow> outcome \<times> 'db world" where
  "migrateReset exec db scriptsDir k w =
     (if \<not> db then (Threw ConnectionRequired, w)
      else if k = Seed then
        (case drop_table Seed w of
           (False, w1) \<Rightarrow> (Exit1 QueryError, w1)
         | (True, w1) \<Rightarrow> (Done, w1))
      else (case select_versions k w of
              (None, w1) \<Rightarrow> (Exit1 QueryError, w1)
            | (Some versions, w1) \<Rightarrow>
                (case readdirSync w1 scriptsDir of
                   None \<Rightarrow> (Exit1 FsError, w1)
                 | Some names \<Rightarrow>
                     (let files = reset_files versions names;
                          scripts = filter (\<lambda>file. file \<in> set files) files;
                          availableVersions = map version_of scripts
                      in if length scripts \<noteq> length versions then
                           (Exit1 (MissingVersion
                              (filter (\<lambda>v. \<not> (v \<in> set availableVersions)) versions)), w1)
                         else
                           (case reset_loop exec scriptsDir scripts w1 of
                              (Done, w2) \<Rightarrow>
                                (case delete_all k w2 of
                                   (False, w3) \<Rightarrow> (Exit1 QueryError, w3)
                                 | (True, w3) \<Rightarrow>
                                     (case drop_table Seed w3 of
                                        (False, w4) \<Rightarrow> (Exit1 QueryError, w4)
                                      | (True, w4) \<Rightarrow> (Done, w4)))
                            | (failed, w2) \<Rightarrow> (failed, w2))))))"

subsection \<open>New\<close>

text \<open>
  \<open>timestamp\<close> is the digits of \<open>new Date().toISOString()\<close> up to the seconds (line 190), a
  parameter here. The parameter \<open>type\<close> only appears in the message printed at the end.
\<close>

definition generateMigration ::
  "string \<Rightarrow> string \<Rightarrow> string \<Rightarrow> kind \<Rightarrow> 'db world \<Rightarrow> outcome \<times> 'db world" where
  "generateMigration timestamp scriptsDir name k w =
     (if length name < 1 then (Threw NameRequired, w)
      else
        (let file = timestamp @ ''_'' @ name @ ''.sql'';
             w1 = (if \<not> existsSync w scriptsDir then mkdirSync w scriptsDir else w)
         in (case writeFileSync w1 scriptsDir file template of
               None \<Rightarrow> (Threw FsError, w1)
             | Some w2 \<Rightarrow> (Done, w2))))"

section \<open>Describing a run\<close>

text \<open>The contents of a file of a listing, as \<open>readFileSync\<close> reads them.\<close>

definition contents :: "(string \<times> string) list \<Rightarrow> string \<Rightarrow> string" where
  "contents d file = (case map_of d file of None \<Rightarrow> [] | Some c \<Rightarrow> c)"

text \<open>
  \<open>run_all exec db sqls\<close> sends the texts in order and stops at the first that fails: it gives
  how many ran without error and the database afterwards.
\<close>

fun run_all :: "('db \<Rightarrow> string \<Rightarrow> bool \<times> 'db) \<Rightarrow> 'db \<Rightarrow> string list \<Rightarrow> nat \<times> 'db" where
  "run_all exec db [] = (0, db)"
| "run_all exec db (sql # sqls) =
     (case exec db sql of
        (False, db') \<Rightarrow> (0, db')
      | (True, db') \<Rightarrow> (case run_all exec db' sqls of (n, db'') \<Rightarrow> (Suc n, db'')))"

text \<open>The statements of a loop of \<open>migrateUp\<close> in which every file is applied.\<close>

definition up_steps :: "kind \<Rightarrow> (string \<times> string) list \<Rightarrow> string list \<Rightarrow> (query \<times> bool) list" where
  "up_steps k d files =
     concat (map (\<lambda>file. [(Script (up_sql (contents d file)), True),
                          (InsertVersion k (version_of file), True)]) files)"

text \<open>The statements of a loop of \<open>migrateReset\<close> in which every file is reverted.\<close>

definition down_steps :: "(string \<times> string) list \<Rightarrow> string list \<Rightarrow> (query \<times> bool) list" where
  "down_steps d files = map (\<lambda>file. (Script (down_sql (contents d file)), True)) files"

text \<open>The \<open>.sql\<close> files of a listing and their versions.\<close>

definition sql_files :: "(string \<times> string) list \<Rightarrow> string list" where
  "sql_files d = filter is_sql (map fst d)"

text \<open>\<open>migrateDown\<close> on migrations, invoked again and again while it returns.\<close>

fun repeat_down ::
  "('db \<Rightarrow> string \<Rightarrow> bool \<times> 'db) \<Rightarrow> string \<Rightarrow> nat \<Rightarrow> 'db world \<Rightarrow> outcome \<times> 'db world" where
  "repeat_down exec scriptsDir 0 w = (Done, w)"
| "repeat_down exec scriptsDir (Suc n) w =
     (case migrateDown exec True scriptsDir Migration w of
        (Done, w') \<Rightarrow> repeat_down exec scriptsDir n w'
      | (failed, w') \<Rightarrow> (failed, w'))"

text \<open>
  What \<open>n\<close> invocations of \<open>migrateDown\<close> in a row go through while each finds its script:
  \<open>revert_files names n rows\<close> are the files they pick, for the newest version first, then
  for the newest of the rows that are left, and so on, stopping early at a version without
  a file; \<open>revert_rows n rows\<close> are the rows left when all \<open>n\<close> have returned.
\<close>

fun revert_files :: "string list \<Rightarrow> nat \<Rightarrow> row list \<Rightarrow> string list" where
  "revert_files names 0 rows = []"
| "revert_files names (Suc n) rows =
     (case newest rows of
        None \<Rightarrow> []
      | Some r \<Rightarrow>
          (case find (\<lambda>file. prefix (version r @ ''_'') file \<and> is_sql file) names of
             None \<Rightarrow> []
           | Some file \<Rightarrow>
               file # revert_files names n (filter (\<lambda>x. version x \<noteq> version r) rows)))"

fun revert_rows :: "nat \<Rightarrow> row list \<Rightarrow> row list" where
  "revert_rows 0 rows = rows"
| "revert_rows (Suc n) rows =
     (case newest rows of
        None \<Rightarrow> rows
      | Some r \<Rightarrow> revert_rows n (filter (\<lambda>x. version x \<noteq> version r) rows))"

section \<open>Example worlds\<close>

text \<open>
  A database that runs every script and remembers the texts it ran, one that fails on one
  given text, one in which a text fails once it has run (as a \<open>CREATE TABLE\<close> does), and a
  world with the two ledger tables and one script directory.
\<close>

definition exec_ok :: "string list \<Rightarrow> string \<Rightarrow> bool \<times> string list" where
  "exec_ok db sql = (True, db @ [sql])"

definition exec_failing :: "string \<Rightarrow> string list \<Rightarrow> string \<Rightarrow> bool \<times> string list" where
  "exec_failing bad db sql = (if sql = bad then (False, db) else (True, db @ [sql]))"

definition exec_once :: "string list \<Rightarrow> string \<Rightarrow> bool \<times> string list" where
  "exec_once db sql = (if sql \<in> set db then (False, db) else (True, db @ [sql]))"

definition clock :: "nat \<Rightarrow> nat" where
  "clock n = 1000 + n"

definition script :: "string \<Rightarrow> string \<Rightarrow> string" where
  "script up down = UP @ nl @ up @ nl @ DOWN @ nl @ down @ nl"

definition world_of ::
  "row list option \<Rightarrow> row list option \<Rightarrow> (string \<times> string) list \<Rightarrow> string list world" where
  "world_of m s files =
     \<lparr>tables = (\<lambda>k. case k of Migration \<Rightarrow> m | Seed \<Rightarrow> s),
      userdb = [],
      dirs = (\<lambda>p. if p = ''db/postgres/migration'' then Some files else None),
      trace = []\<rparr>"

definition init_sql :: "string \<times> string" where
  "init_sql = (''20240101000000_init.sql'', script ''CREATE TABLE t(id int);'' ''DROP TABLE t;'')"

definition users_sql :: "string \<times> string" where
  "users_sql = (''20240102000000_users.sql'', script ''CREATE TABLE u(id int);'' ''DROP TABLE u;'')"

definition posts_sql :: "string \<times> string" where
  "posts_sql = (''20240103000000_posts.sql'', script ''CREATE TABLE p(id int);'' ''DROP TABLE p;'')"

definition applied :: "string \<Rightarrow> nat \<Rightarrow> row" where
  "applied v t = \<lparr>version = v, created_at = t\<rparr>"

section \<open>Splitting at the markers\<close>

lemma split_at_append: "split_at sep s = Some (a, b) \<Longrightarrow> s = a @ sep @ b"
proof (induction s arbitrary: a)
  case Nil
  then show ?case by (simp split: if_splits)
next
  case (Cons c cs)
  show ?case
  proof (cases "prefix sep (c # cs)")
    case True
    with Cons.prems show ?thesis by (auto simp: prefix_def)
  next
    case False
    with Cons.prems obtain a' where "split_at sep cs = Some (a', b)" "a = c # a'"
      by (auto split: option.splits)
    with Cons.IH show ?thesis by simp
  qed
qed

lemma split_at_None: "split_at sep s = None \<longleftrightarrow> \<not> sublist sep s"
proof (induction s)
  case Nil
  then show ?case by simp
next
  case (Cons c cs)
  then show ?case
    by (auto simp: sublist_Cons_right split: option.splits)
qed

lemma prefix_butlast_extend:
  assumes "prefix sep (xs @ butlast sep)" and "sep \<noteq> []"
  shows "prefix sep (xs @ sep @ b)"
proof -
  have "prefix (xs @ butlast sep) (xs @ sep @ b)"
    using assms(2) by (metis append_butlast_last_id append.assoc prefixI same_prefix_prefix)
  with assms(1) show ?thesis by (rule prefix_order.trans)
qed

lemma prefix_butlast_restrict:
  assumes "prefix sep (xs @ sep @ b)" and "sep \<noteq> []" and "xs \<noteq> []"
  shows "prefix sep (xs @ butlast sep)"
proof -
  have len: "length sep \<le> length (xs @ butlast sep)"
    using assms(2,3) by (cases xs) auto
  have "xs @ sep @ b = (xs @ butlast sep) @ (last sep # b)"
    using assms(2) by (metis append.assoc append_Cons append_Nil append_butlast_last_id)
  with assms(1) have "prefix sep ((xs @ butlast sep) @ (last sep # b))" by simp
  with len show ?thesis
    by (metis prefix_length_prefix prefixI)
qed

lemma split_at_first:
  "split_at sep s = Some (a, b) \<Longrightarrow> sep \<noteq> [] \<Longrightarrow> \<not> sublist sep (a @ butlast sep)"
proof (induction s arbitrary: a)
  case Nil
  then show ?case by simp
next
  case (Cons c cs)
  show ?case
  proof (cases "prefix sep (c # cs)")
    case True
    with Cons.prems have "a = []" by simp
    moreover have "length (butlast sep) < length sep"
      using Cons.prems(2) by simp
    ultimately show ?thesis
      using sublist_length_le [of sep "butlast sep"] by auto
  next
    case False
    with Cons.prems obtain a' where a': "split_at sep cs = Some (a', b)" "a = c # a'"
      by (auto split: option.splits)
    from a'(1) have cs: "cs = a' @ sep @ b" by (rule split_at_append)
    from Cons.IH [OF a'(1) Cons.prems(2)] have ih: "\<not> sublist sep (a' @ butlast sep)" .
    have "\<not> prefix sep ((c # a') @ butlast sep)"
    proof
      assume "prefix sep ((c # a') @ butlast sep)"
      then have "prefix sep ((c # a') @ sep @ b)"
        using Cons.prems(2) by (rule prefix_butlast_extend)
      with False cs show False by simp
    qed
    with ih a'(2) show ?thesis by (simp add: sublist_Cons_right)
  qed
qed

lemma split_at_firstI:
  "sep \<noteq> [] \<Longrightarrow> \<not> sublist sep (a @ butlast sep) \<Longrightarrow> split_at sep (a @ sep @ b) = Some (a, b)"
proof (induction a)
  case Nil
  then show ?case by (cases sep) auto
next
  case (Cons c a)
  from Cons.prems(2) have np: "\<not> prefix sep ((c # a) @ butlast sep)"
    and ns: "\<not> sublist sep (a @ butlast sep)"
    by (simp_all add: sublist_Cons_right)
  have "\<not> prefix sep ((c # a) @ sep @ b)"
    using np prefix_butlast_restrict [of sep "c # a" b] Cons.prems(1) by blast
  with Cons.IH [OF Cons.prems(1) ns] show ?case by simp
qed

lemma first_piece:
  "sep \<noteq> [] \<Longrightarrow>
   first_or_empty (split_js sep s) = (case split_at sep s of None \<Rightarrow> s | Some (a, b) \<Rightarrow> a)"
  by (simp add: split_js.simps [of sep s] split: option.splits)

lemma second_piece:
  "sep \<noteq> [] \<Longrightarrow>
   second_or_empty (split_js sep s) =
     (case split_at sep s of None \<Rightarrow> [] | Some (a, b) \<Rightarrow> first_or_empty (split_js sep b))"
proof (cases "split_at sep s")
  case None
  assume "sep \<noteq> []"
  with None show ?thesis by (simp add: split_js.simps [of sep s])
next
  case (Some ab)
  assume sep: "sep \<noteq> []"
  obtain a b where ab: "ab = (a, b)" by (cases ab)
  obtain p ps where "split_js sep b = p # ps"
    using sep by (cases "split_at sep b") (auto simp: split_js.simps [of sep b])
  with Some ab sep show ?thesis by (simp add: split_js.simps [of sep s])
qed


lemma UP_nonempty: "UP \<noteq> []" by (simp add: UP_def)
lemma DOWN_nonempty: "DOWN \<noteq> []" by (simp add: DOWN_def)

lemma down_sql_split:
  "down_sql s =
     (case split_at DOWN s of
        None \<Rightarrow> []
      | Some (pre, rest) \<Rightarrow>
          (let sqls = (case split_at DOWN rest of None \<Rightarrow> rest | Some (a, b) \<Rightarrow> a)
           in (case split_at UP sqls of None \<Rightarrow> sqls | Some (a, b) \<Rightarrow> a)))"
  by (simp add: down_sql_def first_piece second_piece UP_nonempty DOWN_nonempty
        split_js.simps [of UP "[]"] split: option.splits)

lemma not_sublist_prefix_part: "\<not> sublist sep (a @ c) \<Longrightarrow> \<not> sublist sep a"
  by (meson sublist_appendI sublist_order.order.trans sublist_order.order_refl
      sublist_append_rightI)


text \<open>
  C2, as amended. When the \<open>DOWN\<close> marker does not occur in the file, the extracted down-body
  is empty. Otherwise, with \<open>rest\<close> the text after the first occurrence of the \<open>DOWN\<close> marker,
  the down-body is a prefix of \<open>rest\<close> that contains neither marker, and it is either all of
  \<open>rest\<close> or is followed in \<open>rest\<close> by a \<open>DOWN\<close> or an \<open>UP\<close> marker: the text after the first
  \<open>DOWN\<close> marker is cut at the next marker of either kind.
\<close>

theorem down_sql_cut:
  "(\<not> sublist DOWN s \<longrightarrow> down_sql s = []) \<and>
   (\<forall>pre rest. s = pre @ DOWN @ rest \<and> \<not> sublist DOWN (pre @ butlast DOWN) \<longrightarrow>
      (\<exists>tail. rest = down_sql s @ tail \<and>
              \<not> sublist DOWN (down_sql s) \<and> \<not> sublist UP (down_sql s) \<and>
              (tail = [] \<or> prefix DOWN tail \<or> prefix UP tail)))"
proof (intro conjI impI allI)
  assume "\<not> sublist DOWN s"
  then have "split_at DOWN s = None" by (simp add: split_at_None)
  then show "down_sql s = []" by (simp add: down_sql_split)
next
  fix pre rest
  assume "s = pre @ DOWN @ rest \<and> \<not> sublist DOWN (pre @ butlast DOWN)"
  then have s: "split_at DOWN s = Some (pre, rest)"
    using split_at_firstI [OF DOWN_nonempty, of pre rest] by simp
  define sqls where "sqls = (case split_at DOWN rest of None \<Rightarrow> rest | Some (a, b) \<Rightarrow> a)"
  have d: "down_sql s = (case split_at UP sqls of None \<Rightarrow> sqls | Some (a, b) \<Rightarrow> a)"
    using s unfolding sqls_def by (simp add: down_sql_split Let_def)
  obtain t1 where t1: "rest = sqls @ t1" "\<not> sublist DOWN sqls" "t1 = [] \<or> prefix DOWN t1"
  proof (cases "split_at DOWN rest")
    case None
    then have "sqls = rest" by (simp add: sqls_def)
    moreover from None have "\<not> sublist DOWN rest" by (simp add: split_at_None)
    ultimately show ?thesis using that [of "[]"] by simp
  next
    case (Some ab)
    obtain a b where ab: "ab = (a, b)" by (cases ab)
    with Some have "rest = a @ DOWN @ b" "sqls = a" "\<not> sublist DOWN (a @ butlast DOWN)"
      by (simp_all add: sqls_def split_at_append split_at_first DOWN_nonempty)
    then show ?thesis using that [of "DOWN @ b"] by (auto dest: not_sublist_prefix_part)
  qed
  show "\<exists>tail. rest = down_sql s @ tail \<and>
              \<not> sublist DOWN (down_sql s) \<and> \<not> sublist UP (down_sql s) \<and>
              (tail = [] \<or> prefix DOWN tail \<or> prefix UP tail)"
  proof (cases "split_at UP sqls")
    case None
    then have "down_sql s = sqls" by (simp add: d)
    moreover from None have "\<not> sublist UP sqls" by (simp add: split_at_None)
    ultimately show ?thesis using t1 by auto
  next
    case (Some ab)
    obtain a b where ab: "ab = (a, b)" by (cases ab)
    with Some have a: "sqls = a @ UP @ b" "down_sql s = a" "\<not> sublist UP (a @ butlast UP)"
      by (simp_all add: d split_at_append split_at_first UP_nonempty)
    from a(1) t1(2) have "\<not> sublist DOWN a" by (auto dest: not_sublist_prefix_part)
    moreover from a(3) have "\<not> sublist UP a" by (rule not_sublist_prefix_part)
    moreover have "rest = a @ (UP @ b @ t1)" using a(1) t1(1) by simp
    ultimately show ?thesis using a(2) by (intro exI [of _ "UP @ b @ t1"]) simp
  qed
qed

theorem down_sql_cut_witness:
  "\<not> sublist DOWN ''select 1;'' \<and> down_sql ''select 1;'' = [] \<and>
   ''x-- +migrator DOWNa-- +migrator UPb'' = ''x'' @ DOWN @ ''a-- +migrator UPb'' \<and>
   \<not> sublist DOWN (''x'' @ butlast DOWN) \<and>
   (\<exists>tail. ''a-- +migrator UPb'' = down_sql ''x-- +migrator DOWNa-- +migrator UPb'' @ tail \<and>
      \<not> sublist DOWN (down_sql ''x-- +migrator DOWNa-- +migrator UPb'') \<and>
      \<not> sublist UP (down_sql ''x-- +migrator DOWNa-- +migrator UPb'') \<and>
      (tail = [] \<or> prefix DOWN tail \<or> prefix UP tail))"
proof -
  have h1: "\<not> sublist DOWN ''select 1;''" by code_simp
  have h2: "''x-- +migrator DOWNa-- +migrator UPb'' = ''x'' @ DOWN @ ''a-- +migrator UPb''"
    by (simp add: DOWN_def)
  have h3: "\<not> sublist DOWN (''x'' @ butlast DOWN)" by code_simp
  from h1 down_sql_cut [of "''select 1;''"] have c1: "down_sql ''select 1;'' = []" by blast
  from h2 h3 down_sql_cut [of "''x-- +migrator DOWNa-- +migrator UPb''"]
  have "\<exists>tail. ''a-- +migrator UPb'' = down_sql ''x-- +migrator DOWNa-- +migrator UPb'' @ tail \<and>
      \<not> sublist DOWN (down_sql ''x-- +migrator DOWNa-- +migrator UPb'') \<and>
      \<not> sublist UP (down_sql ''x-- +migrator DOWNa-- +migrator UPb'') \<and>
      (tail = [] \<or> prefix DOWN tail \<or> prefix UP tail)"
    by blast
  with h1 h2 h3 c1 show ?thesis by blast
qed

text \<open>
  C2 as stated fails: in the file below the first \<open>DOWN\<close> marker is at the start and the text
  after it is \<open>a-- +migrator UPb\<close>, but the extracted down-body is \<open>a\<close>.
\<close>

theorem down_sql_whole_suffix_counterexample:
  "split_at DOWN ''-- +migrator DOWNa-- +migrator UPb'' = Some ([], ''a-- +migrator UPb'') \<and>
   down_sql ''-- +migrator DOWNa-- +migrator UPb'' = ''a''"
  by code_simp

section \<open>Statements, files and runs\<close>

lemma log_simps [simp]:
  "tables (log q ok w) = tables w" "userdb (log q ok w) = userdb w"
  "dirs (log q ok w) = dirs w" "trace (log q ok w) = trace w @ [(q, ok)]"
  by (simp_all add: log_def)

lemma readFileSync_contents:
  "dirs w scriptsDir = Some d \<Longrightarrow> file \<in> fst ` set d \<Longrightarrow>
   readFileSync w scriptsDir file = Some (contents d file)"
  by (auto simp: readFileSync_def contents_def map_of_eq_None_iff split: option.splits)

lemma run_all_append_fail:
  "run_all exec db pre = (length pre, db1) \<Longrightarrow> \<not> fst (exec db1 sql) \<Longrightarrow>
   run_all exec db (pre @ sql # post) = (length pre, snd (exec db1 sql))"
proof (induction pre arbitrary: db)
  case Nil
  then show ?case by (cases "exec db1 sql") auto
next
  case (Cons s pre)
  from Cons.prems(1) obtain db0 where e: "exec db s = (True, db0)"
    "run_all exec db0 pre = (length pre, db1)"
    by (cases "exec db s") (auto split: bool.splits prod.splits)
  from Cons.IH [OF e(2) Cons.prems(2)] e(1) show ?case by simp
qed

section \<open>Properties of Up\<close>

lemma up_loop_run:
  assumes "tables w k = Some rows" and "dirs w scriptsDir = Some d"
    and "set files \<subseteq> fst ` set d"
    and "run_all exec (userdb w) (map (\<lambda>file. up_sql (contents d file)) files) = (n, db')"
  shows "\<exists>w' rows'. up_loop exec now scriptsDir k files w =
            (if n = length files then Done else Exit1 QueryError, w') \<and>
          n \<le> length files \<and>
          tables w' = (tables w)(k \<mapsto> rows @ rows') \<and>
          map version rows' = map version_of (take n files) \<and>
          userdb w' = db' \<and> dirs w' = dirs w \<and>
          trace w' = trace w @ up_steps k d (take n files) @
            (if n = length files then []
             else [(Script (up_sql (contents d (files ! n))), False)])"
  using assms
proof (induction files arbitrary: w rows n)
  case Nil
  then show ?case by (auto simp: up_steps_def)
next
  case (Cons f fs)
  from Cons.prems(2,3) have rd: "readFileSync w scriptsDir f = Some (contents d f)"
    by (simp add: readFileSync_contents)
  obtain ok db1 where ex: "exec (userdb w) (up_sql (contents d f)) = (ok, db1)"
    by (cases "exec (userdb w) (up_sql (contents d f))")
  show ?case
  proof (cases ok)
    case False
    with ex Cons.prems(4) have "n = 0" "db' = db1" by auto
    have "tables w = (tables w)(k \<mapsto> rows @ [])"
      using Cons.prems(1) by (simp add: map_upd_triv)
    with \<open>n = 0\<close> \<open>db' = db1\<close> False ex rd show ?thesis
      by (intro exI [of _ "log (Script (up_sql (contents d f))) False (w\<lparr>userdb := db1\<rparr>)"]
            exI [of _ "[]"])
         (simp add: run_script_def up_steps_def)
  next
    case True
    obtain m where m: "run_all exec db1 (map (\<lambda>file. up_sql (contents d file)) fs) = (m, db')"
      "n = Suc m"
      using Cons.prems(4) ex True by (auto split: prod.splits)
    let ?w1 = "log (Script (up_sql (contents d f))) True (w\<lparr>userdb := db1\<rparr>)"
    let ?r = "\<lparr>version = version_of f, created_at = now (length (trace ?w1))\<rparr>"
    let ?w2 = "log (InsertVersion k (version_of f)) True
                 (?w1\<lparr>tables := (tables ?w1)(k \<mapsto> rows @ [?r])\<rparr>)"
    have s1: "run_script exec (up_sql (contents d f)) w = (True, ?w1)"
      using ex True by (simp add: run_script_def)
    have s2: "insert_version now k (version_of f) ?w1 = (True, ?w2)"
      using Cons.prems(1) by (simp add: insert_version_def)
    have step: "up_loop exec now scriptsDir k (f # fs) w =
        up_loop exec now scriptsDir k fs ?w2"
      using rd s1 s2 by simp
    have "tables ?w2 k = Some (rows @ [?r])" "dirs ?w2 scriptsDir = Some d"
      "set fs \<subseteq> fst ` set d"
      "run_all exec (userdb ?w2) (map (\<lambda>file. up_sql (contents d file)) fs) = (m, db')"
      using Cons.prems(2,3) m(1) by simp_all
    from Cons.IH [OF this]
    obtain w' rows' where ih:
      "up_loop exec now scriptsDir k fs ?w2 =
         (if m = length fs then Done else Exit1 QueryError, w')"
      "m \<le> length fs"
      "tables w' = (tables ?w2)(k \<mapsto> (rows @ [?r]) @ rows')"
      "map version rows' = map version_of (take m fs)"
      "userdb w' = db'" "dirs w' = dirs ?w2"
      "trace w' = trace ?w2 @ up_steps k d (take m fs) @
         (if m = length fs then []
          else [(Script (up_sql (contents d (fs ! m))), False)])"
      by blast
    show ?thesis
      apply (rule exI [of _ w'])
      apply (rule exI [of _ "?r # rows'"])
      using ih step m(2) by (simp add: up_steps_def)
  qed
qed

lemma set_up_files:
  "set (up_files versions (map fst d)) =
     {file \<in> set (sql_files d). version_of file \<notin> set versions}"
  by (auto simp: up_files_def sql_files_def)

lemma up_files_sort:
  "up_files versions (map fst d) =
     sort (filter (\<lambda>file. version_of file \<notin> set versions) (sql_files d))"
  by (simp add: up_files_def sql_files_def conj_commute)

lemma up_files_nil:
  assumes "version_of ` set (sql_files d) \<subseteq> set versions"
  shows "up_files versions (map fst d) = []"
proof -
  have "filter (\<lambda>file. \<not> (version_of file \<in> set versions) \<and> is_sql file) (map fst d) = []"
    using assms by (auto simp: sql_files_def filter_empty_conv)
  then show ?thesis by (simp add: up_files_def)
qed

lemma migrateUp_loop:
  assumes "tables w k = Some rows" and "dirs w scriptsDir = Some d"
  shows "migrateUp exec now True scriptsDir k w =
     up_loop exec now scriptsDir k (up_files (map version rows) (map fst d))
       (log (SelectVersions k) True w)"
  using assms by (simp add: migrateUp_def select_versions_def readdirSync_def)

lemma migrateUp_run:
  assumes "tables w k = Some rows" and "dirs w scriptsDir = Some d"
    and "run_all exec (userdb w)
           (map (\<lambda>file. up_sql (contents d file)) (up_files (map version rows) (map fst d)))
         = (n, db')"
  shows "\<exists>w' rows'. migrateUp exec now True scriptsDir k w =
            (if n = length (up_files (map version rows) (map fst d))
             then Done else Exit1 QueryError, w') \<and>
          n \<le> length (up_files (map version rows) (map fst d)) \<and>
          tables w' = (tables w)(k \<mapsto> rows @ rows') \<and>
          map version rows' = map version_of (take n (up_files (map version rows) (map fst d))) \<and>
          userdb w' = db' \<and> dirs w' = dirs w \<and>
          trace w' = trace w @ (SelectVersions k, True) #
            up_steps k d (take n (up_files (map version rows) (map fst d))) @
            (if n = length (up_files (map version rows) (map fst d)) then []
             else [(Script (up_sql (contents d
                      (up_files (map version rows) (map fst d) ! n))), False)])"
proof -
  let ?w0 = "log (SelectVersions k) True w"
  let ?files = "up_files (map version rows) (map fst d)"
  have "tables ?w0 k = Some rows" "dirs ?w0 scriptsDir = Some d"
    "set ?files \<subseteq> fst ` set d"
    "run_all exec (userdb ?w0) (map (\<lambda>file. up_sql (contents d file)) ?files) = (n, db')"
    using assms by (auto simp: up_files_def)
  from up_loop_run [OF this, of now] show ?thesis
    unfolding migrateUp_loop [OF assms(1,2)] by simp
qed

text \<open>
  C3. Let the ledger table of the kind exist with rows whose versions all belong to \<open>.sql\<close>
  files of the script directory, and let the \<open>UP\<close> bodies of the pending files, sent in
  order to the database as the run finds it, run without error one after the other. Then
  \<open>migrateUp\<close> returns; the pending files are the \<open>.sql\<close> files whose version is not in the
  ledger, sorted ascending by file name; after the \<open>SELECT\<close> the run sends, for each pending
  file in that order, its \<open>UP\<close> body and then the \<open>INSERT\<close> of its version, and nothing else;
  afterwards the set of versions in the ledger is the set of versions of the \<open>.sql\<close> files.
  A second \<open>migrateUp\<close> on the resulting world returns and sends only its \<open>SELECT\<close>: no script
  runs and neither the ledger, the database nor the files change.
\<close>

theorem migrateUp_applies_pending:
  assumes "tables w k = Some rows" and "dirs w scriptsDir = Some d"
    and "set (map version rows) \<subseteq> version_of ` set (sql_files d)"
    and "run_all exec (userdb w)
           (map (\<lambda>file. up_sql (contents d file)) (up_files (map version rows) (map fst d)))
         = (length (up_files (map version rows) (map fst d)), db')"
  shows "\<exists>w' rows'. migrateUp exec now True scriptsDir k w = (Done, w') \<and>
     up_files (map version rows) (map fst d) =
       sort (filter (\<lambda>file. version_of file \<notin> set (map version rows)) (sql_files d)) \<and>
     trace w' = trace w @ (SelectVersions k, True) #
       up_steps k d (up_files (map version rows) (map fst d)) \<and>
     tables w' = (tables w)(k \<mapsto> rows') \<and>
     set (map version rows') = version_of ` set (sql_files d) \<and>
     userdb w' = db' \<and> dirs w' = dirs w \<and>
     migrateUp exec now True scriptsDir k w' = (Done, log (SelectVersions k) True w')"
proof -
  let ?files = "up_files (map version rows) (map fst d)"
  from migrateUp_run [OF assms(1,2,4), of now]
  obtain w' rows' where r:
    "migrateUp exec now True scriptsDir k w = (Done, w')"
    "tables w' = (tables w)(k \<mapsto> rows @ rows')"
    "map version rows' = map version_of ?files"
    "userdb w' = db'" "dirs w' = dirs w"
    "trace w' = trace w @ (SelectVersions k, True) # up_steps k d ?files"
    by auto
  have vs: "set (map version (rows @ rows')) = version_of ` set (sql_files d)"
  proof -
    have "set (map version rows') = version_of ` set ?files"
      using r(3) by (metis set_map)
    then show ?thesis
      using assms(3) by (auto simp: set_up_files)
  qed
  have t2: "tables w' k = Some (rows @ rows')" "dirs w' scriptsDir = Some d"
    using r(2,5) assms(2) by simp_all
  have "up_files (map version (rows @ rows')) (map fst d) = []"
    using vs by (intro up_files_nil) simp
  then have again: "migrateUp exec now True scriptsDir k w' = (Done, log (SelectVersions k) True w')"
    unfolding migrateUp_loop [OF t2] by simp
  show ?thesis
    using r(1,2,4,5,6) vs again up_files_sort [of "map version rows" d]
    by (intro exI [of _ w'] exI [of _ "rows @ rows'"]) simp
qed

theorem migrateUp_applies_pending_witness:
  "tables (world_of (Some [applied ''20240102000000'' 1003]) None
      [posts_sql, (''README.md'', ''notes''), users_sql, init_sql])
     Migration = Some [applied ''20240102000000'' 1003] \<and>
   up_files (map version [applied ''20240102000000'' 1003])
     (map fst [posts_sql, (''README.md'', ''notes''), users_sql, init_sql])
     = [fst init_sql, fst posts_sql] \<and>
   run_all exec_once []
     (map (\<lambda>file. up_sql (contents [posts_sql, (''README.md'', ''notes''), users_sql, init_sql]
        file)) [fst init_sql, fst posts_sql])
     = (2, [up_sql (snd init_sql), up_sql (snd posts_sql)]) \<and>
   (\<exists>w' rows'. migrateUp exec_once clock True ''db/postgres/migration'' Migration
        (world_of (Some [applied ''20240102000000'' 1003]) None
          [posts_sql, (''README.md'', ''notes''), users_sql, init_sql])
        = (Done, w') \<and>
      trace w' = [(SelectVersions Migration, True),
        (Script (up_sql (snd init_sql)), True), (InsertVersion Migration ''20240101000000'', True),
        (Script (up_sql (snd posts_sql)), True), (InsertVersion Migration ''20240103000000'', True)] \<and>
      tables w' Migration = Some rows' \<and>
      set (map version rows') = {''20240101000000'', ''20240102000000'', ''20240103000000''} \<and>
      migrateUp exec_once clock True ''db/postgres/migration'' Migration w'
        = (Done, log (SelectVersions Migration) True w'))"
proof -
  let ?rows = "[applied ''20240102000000'' 1003]"
  let ?d = "[posts_sql, (''README.md'', ''notes''), users_sql, init_sql]"
  let ?w = "world_of (Some ?rows) None ?d"
  have h1: "tables ?w Migration = Some ?rows" by (simp add: world_of_def)
  have h2: "dirs ?w ''db/postgres/migration'' = Some ?d" by (simp add: world_of_def)
  have h3: "set (map version ?rows) \<subseteq> version_of ` set (sql_files ?d)" by code_simp
  have f: "up_files (map version ?rows) (map fst ?d) = [fst init_sql, fst posts_sql]"
    by code_simp
  have r: "run_all exec_once [] (map (\<lambda>file. up_sql (contents ?d file))
      [fst init_sql, fst posts_sql]) = (2, [up_sql (snd init_sql), up_sql (snd posts_sql)])"
    by code_simp
  have h4: "run_all exec_once (userdb ?w)
      (map (\<lambda>file. up_sql (contents ?d file)) (up_files (map version ?rows) (map fst ?d)))
      = (length (up_files (map version ?rows) (map fst ?d)),
         [up_sql (snd init_sql), up_sql (snd posts_sql)])"
    unfolding f using r by (simp add: world_of_def)
  have v: "version_of ` set (sql_files ?d)
      = {''20240101000000'', ''20240102000000'', ''20240103000000''}"
    by code_simp
  have s: "up_steps Migration ?d [fst init_sql, fst posts_sql] =
      [(Script (up_sql (snd init_sql)), True), (InsertVersion Migration ''20240101000000'', True),
       (Script (up_sql (snd posts_sql)), True), (InsertVersion Migration ''20240103000000'', True)]"
    by code_simp
  have t: "trace ?w = []" by (simp add: world_of_def)
  from migrateUp_applies_pending [OF h1 h2 h3 h4, of clock]
  obtain w' rows' where
    "migrateUp exec_once clock True ''db/postgres/migration'' Migration ?w = (Done, w')"
    "trace w' = trace ?w @ (SelectVersions Migration, True) #
       up_steps Migration ?d (up_files (map version ?rows) (map fst ?d))"
    "tables w' = (tables ?w)(Migration \<mapsto> rows')"
    "set (map version rows') = version_of ` set (sql_files ?d)"
    "migrateUp exec_once clock True ''db/postgres/migration'' Migration w'
       = (Done, log (SelectVersions Migration) True w')"
    by blast
  with h1 f r v s t show ?thesis by auto
qed

text \<open>
  C4. Let the pending files, in ascending order, be \<open>pre\<close>, then \<open>file\<close>, then \<open>post\<close>; let the
  \<open>UP\<close> bodies of \<open>pre\<close> run without error one after the other and let the \<open>UP\<close> body of \<open>file\<close>
  fail in the database they leave. Then \<open>migrateUp\<close> ends in its \<open>catch\<close> block with
  \<open>process.exit(1)\<close>; the statements sent are the \<open>SELECT\<close>, the \<open>UP\<close> body and the \<open>INSERT\<close> of
  each file of \<open>pre\<close>, and the failed \<open>UP\<close> body of \<open>file\<close>, so that no statement is sent for
  \<open>post\<close> and no \<open>INSERT\<close> for \<open>file\<close>; the ledger has gained exactly one row per file of
  \<open>pre\<close>, in order.
\<close>

theorem migrateUp_fail_fast:
  assumes "tables w k = Some rows" and "dirs w scriptsDir = Some d"
    and "up_files (map version rows) (map fst d) = pre @ file # post"
    and "run_all exec (userdb w) (map (\<lambda>file. up_sql (contents d file)) pre) = (length pre, db1)"
    and "\<not> fst (exec db1 (up_sql (contents d file)))"
  shows "\<exists>w' rows'. migrateUp exec now True scriptsDir k w = (Exit1 QueryError, w') \<and>
     trace w' = trace w @ (SelectVersions k, True) # up_steps k d pre @
       [(Script (up_sql (contents d file)), False)] \<and>
     tables w' = (tables w)(k \<mapsto> rows @ rows') \<and>
     map version rows' = map version_of pre \<and>
     dirs w' = dirs w"
proof -
  let ?up = "\<lambda>file. up_sql (contents d file)"
  let ?files = "up_files (map version rows) (map fst d)"
  have "run_all exec (userdb w) (map ?up pre @ ?up file # map ?up post)
      = (length (map ?up pre), snd (exec db1 (?up file)))"
    using assms(4,5) by (intro run_all_append_fail) simp_all
  then have run: "run_all exec (userdb w) (map ?up ?files)
      = (length pre, snd (exec db1 (?up file)))"
    by (simp add: assms(3))
  have n: "length pre \<noteq> length ?files" "take (length pre) ?files = pre"
    "?files ! length pre = file"
    by (simp_all add: assms(3))
  from migrateUp_run [OF assms(1,2) run, of now]
  obtain w' rows' where
    "migrateUp exec now True scriptsDir k w =
       (if length pre = length ?files then Done else Exit1 QueryError, w')"
    "tables w' = (tables w)(k \<mapsto> rows @ rows')"
    "map version rows' = map version_of (take (length pre) ?files)"
    "dirs w' = dirs w"
    "trace w' = trace w @ (SelectVersions k, True) # up_steps k d (take (length pre) ?files) @
       (if length pre = length ?files then []
        else [(Script (up_sql (contents d (?files ! length pre))), False)])"
    by blast
  with n show ?thesis by (intro exI [of _ w'] exI [of _ rows']) simp

qed

theorem migrateUp_fail_fast_witness:
  "tables (world_of (Some []) None [posts_sql, init_sql, users_sql]) Migration = Some [] \<and>
   up_files (map version ([] :: row list)) (map fst [posts_sql, init_sql, users_sql]) =
     [fst init_sql] @ fst users_sql # [fst posts_sql] \<and>
   \<not> fst (exec_failing (up_sql (snd users_sql)) [up_sql (snd init_sql)]
            (up_sql (contents [posts_sql, init_sql, users_sql] (fst users_sql)))) \<and>
   (\<exists>w' rows'. migrateUp (exec_failing (up_sql (snd users_sql))) clock True
        ''db/postgres/migration'' Migration
        (world_of (Some []) None [posts_sql, init_sql, users_sql]) = (Exit1 QueryError, w') \<and>
      tables w' Migration = Some rows' \<and>
      map version rows' = [''20240101000000''])"
proof -
  let ?d = "[posts_sql, init_sql, users_sql]"
  let ?w = "world_of (Some []) None ?d"
  let ?exec = "exec_failing (up_sql (snd users_sql))"
  have h1: "tables ?w Migration = Some []" by (simp add: world_of_def)
  have h2: "dirs ?w ''db/postgres/migration'' = Some ?d" by (simp add: world_of_def)
  have h3: "up_files (map version ([] :: row list)) (map fst ?d) =
      [fst init_sql] @ fst users_sql # [fst posts_sql]"
    by code_simp
  have h4: "run_all ?exec (userdb ?w) (map (\<lambda>file. up_sql (contents ?d file)) [fst init_sql])
      = (length [fst init_sql], [up_sql (snd init_sql)])"
    by code_simp
  have h5: "\<not> fst (?exec [up_sql (snd init_sql)] (up_sql (contents ?d (fst users_sql))))"
    by code_simp
  have v: "map version_of [fst init_sql] = [''20240101000000'']" by code_simp
  from migrateUp_fail_fast [OF h1 h2 h3 h4 h5, of clock]
  obtain w' rows' where
    "migrateUp ?exec clock True ''db/postgres/migration'' Migration ?w = (Exit1 QueryError, w')"
    "tables w' = (tables ?w)(Migration \<mapsto> [] @ rows')"
    "map version rows' = map version_of [fst init_sql]"
    by blast
  with h1 h3 h5 v show ?thesis by auto
qed

text \<open>
  C9. Whatever the database answers, a run of \<open>migrateUp\<close> that reaches the loop sends, after
  its \<open>SELECT\<close>, for some number \<open>n\<close> of the pending files in order, the \<open>UP\<close> body (run
  without error) immediately followed by the \<open>INSERT\<close> of that file's version, and then at
  most one more statement, a script that failed; the rows the ledger gains are exactly the
  versions of those \<open>n\<close> files. Every version the run records is thus that of a file whose
  \<open>UP\<close> body ran without error just before. A run that does not reach the loop (no
  connection, no ledger table, no script directory) leaves the ledger tables unchanged.
\<close>

theorem migrateUp_records_only_executed:
  "(\<not> db \<or> tables w k = None \<or> dirs w scriptsDir = None \<longrightarrow>
      tables (snd (migrateUp exec now db scriptsDir k w)) = tables w) \<and>
   (\<forall>rows d. db \<and> tables w k = Some rows \<and> dirs w scriptsDir = Some d \<longrightarrow>
      (\<exists>n rows' tail. n \<le> length (up_files (map version rows) (map fst d)) \<and>
         tables (snd (migrateUp exec now db scriptsDir k w)) = (tables w)(k \<mapsto> rows @ rows') \<and>
         map version rows' = map version_of (take n (up_files (map version rows) (map fst d))) \<and>
         trace (snd (migrateUp exec now db scriptsDir k w)) =
           trace w @ (SelectVersions k, True) #
             up_steps k d (take n (up_files (map version rows) (map fst d))) @ tail \<and>
         (tail = [] \<or> (\<exists>sql. tail = [(Script sql, False)]))))"
proof (intro conjI impI allI)
  assume "\<not> db \<or> tables w k = None \<or> dirs w scriptsDir = None"
  then show "tables (snd (migrateUp exec now db scriptsDir k w)) = tables w"
    by (auto simp: migrateUp_def select_versions_def readdirSync_def split: option.splits)
next
  fix rows d
  assume a: "db \<and> tables w k = Some rows \<and> dirs w scriptsDir = Some d"
  let ?files = "up_files (map version rows) (map fst d)"
  obtain n db' where run:
    "run_all exec (userdb w) (map (\<lambda>file. up_sql (contents d file)) ?files) = (n, db')"
    by (cases "run_all exec (userdb w) (map (\<lambda>file. up_sql (contents d file)) ?files)")
  from a have db: "db = True" and t: "tables w k = Some rows" "dirs w scriptsDir = Some d"
    by simp_all
  from migrateUp_run [OF t run, of now]
  obtain w' rows' where r:
    "migrateUp exec now True scriptsDir k w =
       (if n = length ?files then Done else Exit1 QueryError, w')"
    "n \<le> length ?files"
    "tables w' = (tables w)(k \<mapsto> rows @ rows')"
    "map version rows' = map version_of (take n ?files)"
    "trace w' = trace w @ (SelectVersions k, True) # up_steps k d (take n ?files) @
       (if n = length ?files then []
        else [(Script (up_sql (contents d (?files ! n))), False)])"
    by blast
  show "\<exists>n rows' tail. n \<le> length ?files \<and>
         tables (snd (migrateUp exec now db scriptsDir k w)) = (tables w)(k \<mapsto> rows @ rows') \<and>
         map version rows' = map version_of (take n ?files) \<and>
         trace (snd (migrateUp exec now db scriptsDir k w)) =
           trace w @ (SelectVersions k, True) # up_steps k d (take n ?files) @ tail \<and>
         (tail = [] \<or> (\<exists>sql. tail = [(Script sql, False)]))"
    using r unfolding db
    by (intro exI [of _ n] exI [of _ rows']
          exI [of _ "if n = length ?files then []
             else [(Script (up_sql (contents d (?files ! n))), False)]"]) simp
qed

theorem migrateUp_records_only_executed_witness:
  "tables (snd (migrateUp (exec_failing (up_sql (snd users_sql))) clock False
      ''db/postgres/migration'' Migration
      (world_of (Some []) None [posts_sql, init_sql, users_sql])))
     = tables (world_of (Some []) None [posts_sql, init_sql, users_sql]) \<and>
   (\<exists>n rows' tail.
      n \<le> length (up_files (map version ([] :: row list)) (map fst [posts_sql, init_sql, users_sql])) \<and>
      tables (snd (migrateUp (exec_failing (up_sql (snd users_sql))) clock True
         ''db/postgres/migration'' Migration
         (world_of (Some []) None [posts_sql, init_sql, users_sql]))) Migration
        = Some rows' \<and>
      map version rows' = map version_of
        (take n (up_files (map version ([] :: row list)) (map fst [posts_sql, init_sql, users_sql]))) \<and>
      trace (snd (migrateUp (exec_failing (up_sql (snd users_sql))) clock True
         ''db/postgres/migration'' Migration
         (world_of (Some []) None [posts_sql, init_sql, users_sql]))) =
        (SelectVersions Migration, True) #
          up_steps Migration [posts_sql, init_sql, users_sql]
            (take n (up_files (map version ([] :: row list))
               (map fst [posts_sql, init_sql, users_sql]))) @ tail)"
proof -
  let ?d = "[posts_sql, init_sql, users_sql]"
  let ?w = "world_of (Some []) None ?d"
  let ?exec = "exec_failing (up_sql (snd users_sql))"
  have h1: "tables ?w Migration = Some []" by (simp add: world_of_def)
  have h2: "dirs ?w ''db/postgres/migration'' = Some ?d" by (simp add: world_of_def)
  have t: "trace ?w = []" by (simp add: world_of_def)
  note thm1 = migrateUp_records_only_executed
    [of False ?w Migration "''db/postgres/migration''" ?exec clock]
  note thm2 = migrateUp_records_only_executed
    [of True ?w Migration "''db/postgres/migration''" ?exec clock]
  from thm1 have a: "tables (snd (migrateUp ?exec clock False
      ''db/postgres/migration'' Migration ?w)) = tables ?w"
    by blast
  from thm2 h1 h2 obtain n rows' tail where
    "n \<le> length (up_files (map version ([] :: row list)) (map fst ?d))"
    "tables (snd (migrateUp ?exec clock True ''db/postgres/migration'' Migration ?w))
       = (tables ?w)(Migration \<mapsto> [] @ rows')"
    "map version rows' = map version_of
       (take n (up_files (map version ([] :: row list)) (map fst ?d)))"
    "trace (snd (migrateUp ?exec clock True ''db/postgres/migration'' Migration ?w)) =
       trace ?w @ (SelectVersions Migration, True) #
         up_steps Migration ?d (take n (up_files (map version ([] :: row list)) (map fst ?d)))
         @ tail"
    by blast
  with a t show ?thesis by auto
qed

section \<open>Properties of Down\<close>

text \<open>
  C5. For every ledger and script-store state, \<open>migrateDown\<close> with kind seed throws the error
  "Seeder cannot be reverted. use 'reset' instead." and leaves the world as it was: no
  statement is sent to the database, so the ledger is not consulted and no SQL runs.
\<close>

theorem migrateDown_seed:
  "migrateDown exec db scriptsDir Seed w = (Threw CannotRevertSeeder, w)"
  by (simp add: migrateDown_def)

lemma newest_Nil: "newest rows = None \<longleftrightarrow> rows = []"
  by (cases rows) (auto split: option.splits)

lemma newest_greatest:
  "newest rows = Some r \<Longrightarrow> r \<in> set rows \<and> (\<forall>r' \<in> set rows. created_at r' \<le> created_at r)"
proof (induction rows arbitrary: r)
  case Nil
  then show ?case by simp
next
  case (Cons x rows)
  show ?case
  proof (cases "newest rows")
    case None
    then have "rows = []" by (simp add: newest_Nil)
    with Cons.prems None show ?thesis by simp
  next
    case (Some y)
    from Cons.IH [OF Some] have y: "y \<in> set rows" "\<forall>r' \<in> set rows. created_at r' \<le> created_at y"
      by simp_all
    with Cons.prems Some show ?thesis
      by (cases "created_at x < created_at y") (auto intro: order_trans)
  qed
qed

lemma migrateDown_empty:
  "tables w Migration = Some [] \<Longrightarrow>
   migrateDown exec True scriptsDir Migration w =
     (Exit1 NoRows, log (SelectLatest Migration) True w)"
  by (simp add: migrateDown_def select_latest_def)

lemma migrateDown_step:
  assumes "tables w Migration = Some rows" and "newest rows = Some r"
    and "dirs w scriptsDir = Some d"
    and "find (\<lambda>file. prefix (version r @ ''_'') file \<and> is_sql file) (map fst d) = Some f"
    and "exec (userdb w) (down_sql (contents d f)) = (True, db')"
  shows "migrateDown exec True scriptsDir Migration w =
     (Done, w\<lparr>userdb := db',
              tables := (tables w)(Migration \<mapsto> filter (\<lambda>x. version x \<noteq> version r) rows),
              trace := trace w @ [(SelectLatest Migration, True),
                (Script (down_sql (contents d f)), True),
                (DeleteVersion Migration (version r), True)]\<rparr>)"
proof -
  from assms(4) have "f \<in> set (map fst d)"
    by (auto simp: find_Some_iff)
  with assms(3) have rd: "readFileSync (log (SelectLatest Migration) True w) scriptsDir f
      = Some (contents d f)"
    by (intro readFileSync_contents) simp_all
  show ?thesis
    using assms rd
    by (simp add: migrateDown_def select_latest_def readdirSync_def run_script_def
          delete_version_def log_def)
qed

lemma migrateDown_not_found:
  assumes "tables w Migration = Some rows" and "newest rows = Some r"
    and "dirs w scriptsDir = Some d"
    and "find (\<lambda>file. prefix (version r @ ''_'') file \<and> is_sql file) (map fst d) = None"
  shows "migrateDown exec True scriptsDir Migration w =
     (Exit1 (ScriptVersionNotFound (version r)), log (SelectLatest Migration) True w)"
  using assms by (simp add: migrateDown_def select_latest_def readdirSync_def)

lemma migrateDown_script_fails:
  assumes "tables w Migration = Some rows" and "newest rows = Some r"
    and "dirs w scriptsDir = Some d"
    and "find (\<lambda>file. prefix (version r @ ''_'') file \<and> is_sql file) (map fst d) = Some f"
    and "exec (userdb w) (down_sql (contents d f)) = (False, db')"
  shows "migrateDown exec True scriptsDir Migration w =
     (Exit1 QueryError,
      w\<lparr>userdb := db',
        trace := trace w @ [(SelectLatest Migration, True),
          (Script (down_sql (contents d f)), False)]\<rparr>)"
proof -
  from assms(4) have "f \<in> set (map fst d)"
    by (auto simp: find_Some_iff)
  with assms(3) have rd: "readFileSync (log (SelectLatest Migration) True w) scriptsDir f
      = Some (contents d f)"
    by (intro readFileSync_contents) simp_all
  show ?thesis
    using assms rd
    by (simp add: migrateDown_def select_latest_def readdirSync_def run_script_def log_def)
qed

lemma versions_without:
  "set (map version (filter (\<lambda>x. version x \<noteq> v) rows)) = set (map version rows) - {v}"
  by auto

lemma revert_rows_card:
  "card (set (map version (revert_rows n rows))) = card (set (map version rows)) - n"
proof (induction n arbitrary: rows)
  case 0
  then show ?case by simp
next
  case (Suc n)
  show ?case
  proof (cases "newest rows")
    case None
    then have "rows = []" by (simp add: newest_Nil)
    then show ?thesis by simp
  next
    case (Some r)
    then have "r \<in> set rows" by (simp add: newest_greatest)
    then have "card (set (map version rows) - {version r}) = card (set (map version rows)) - 1"
      by simp
    with Some Suc.IH [of "filter (\<lambda>x. version x \<noteq> version r) rows"] show ?thesis
      by (simp add: versions_without del: set_map)
  qed
qed

lemma run_all_count: "run_all exec db sqls = (n, db') \<Longrightarrow> n \<le> length sqls"
proof (induction sqls arbitrary: db n)
  case Nil
  then show ?case by simp
next
  case (Cons sql sqls)
  obtain ok db1 where e: "exec db sql = (ok, db1)" by (cases "exec db sql")
  show ?case
  proof (cases ok)
    case False
    with e Cons.prems show ?thesis by simp
  next
    case True
    with e Cons.prems obtain m where m: "run_all exec db1 sqls = (m, db')" "n = Suc m"
      by (auto split: prod.splits)
    with Cons.IH [OF m(1)] show ?thesis by simp
  qed
qed

lemma repeat_down_run:
  assumes "dirs w scriptsDir = Some d" and "tables w Migration = Some rows"
    and "run_all exec (userdb w)
           (map (\<lambda>file. down_sql (contents d file)) (revert_files (map fst d) n rows))
         = (n, db')"
  shows "\<exists>w'. repeat_down exec scriptsDir n w = (Done, w') \<and>
     tables w' = (tables w)(Migration \<mapsto> revert_rows n rows) \<and>
     userdb w' = db' \<and> dirs w' = dirs w"
  using assms
proof (induction n arbitrary: w rows)
  case 0
  from "0.prems"(2) have "tables w = (tables w)(Migration \<mapsto> rows)"
    by (simp add: map_upd_triv)
  with "0.prems"(3) show ?case by simp
next
  case (Suc n)
  let ?down = "\<lambda>file. down_sql (contents d file)"
  from run_all_count [OF Suc.prems(3)]
  have len: "Suc n \<le> length (revert_files (map fst d) (Suc n) rows)" by simp
  then obtain r where r: "newest rows = Some r"
    by (cases "newest rows") simp_all
  let ?P = "\<lambda>file. prefix (version r @ ''_'') file \<and> is_sql file"
  from len r obtain f where f: "find ?P (map fst d) = Some f"
    by (cases "find ?P (map fst d)") simp_all
  let ?rows1 = "filter (\<lambda>x. version x \<noteq> version r) rows"
  from Suc.prems(3) r f
  have run: "run_all exec (userdb w) (?down f # map ?down (revert_files (map fst d) n ?rows1))
      = (Suc n, db')"
    by simp
  obtain ok db1 where e: "exec (userdb w) (?down f) = (ok, db1)"
    by (cases "exec (userdb w) (?down f)")
  with run have ok: "ok" by (cases ok) simp_all
  with run e have rest: "run_all exec db1 (map ?down (revert_files (map fst d) n ?rows1)) = (n, db')"
    by (auto split: prod.splits)
  let ?w1 = "w\<lparr>userdb := db1,
              tables := (tables w)(Migration \<mapsto> ?rows1),
              trace := trace w @ [(SelectLatest Migration, True),
                (Script (?down f), True),
                (DeleteVersion Migration (version r), True)]\<rparr>"
  have step: "migrateDown exec True scriptsDir Migration w = (Done, ?w1)"
    using Suc.prems(2) r Suc.prems(1) f e ok by (intro migrateDown_step) simp_all
  have "dirs ?w1 scriptsDir = Some d" "tables ?w1 Migration = Some ?rows1"
    "run_all exec (userdb ?w1) (map ?down (revert_files (map fst d) n ?rows1)) = (n, db')"
    using Suc.prems(1) rest by simp_all
  from Suc.IH [OF this] obtain w' where
    "repeat_down exec scriptsDir n ?w1 = (Done, w')"
    "tables w' = (tables ?w1)(Migration \<mapsto> revert_rows n ?rows1)"
    "userdb w' = db'" "dirs w' = dirs ?w1"
    by blast
  with step r show ?case by (intro exI [of _ w']) simp
qed

text \<open>
  C6. Let the migrations ledger and the script directory exist. On an empty ledger
  \<open>migrateDown\<close> fails: after the \<open>SELECT\<close> it ends in its \<open>catch\<close> block with
  \<open>process.exit(1)\<close>. On a non-empty ledger the \<open>SELECT\<close> returns a row \<open>r\<close> whose \<open>created_at\<close>
  is greatest. When the directory has a \<open>.sql\<close> file whose name starts with that version
  and an underscore, and the \<open>DOWN\<close> body of the first such file runs without error in the
  database as it is, \<open>migrateDown\<close> returns, having sent the \<open>SELECT\<close>, that one \<open>DOWN\<close> body
  and the \<open>DELETE\<close> of that version and nothing else; the ledger has lost the rows of that
  version and no other row, so that the applied set is the former one without that
  version. When there is no such file, or the \<open>DOWN\<close> body fails, the run ends with an error
  and the ledger is as it was. Finally, when the scripts of as many invocations as there
  are applied versions are all found and their \<open>DOWN\<close> bodies run without error one after
  the other, these invocations all return and leave the ledger empty, and the next
  invocation fails as on any empty ledger.
\<close>

theorem migrateDown_one_step:
  assumes "tables w Migration = Some rows" and "dirs w scriptsDir = Some d"
  shows "(rows = [] \<longrightarrow>
        migrateDown exec True scriptsDir Migration w =
          (Exit1 NoRows, log (SelectLatest Migration) True w)) \<and>
     (rows \<noteq> [] \<longrightarrow>
        (\<exists>r. newest rows = Some r \<and> r \<in> set rows \<and>
           (\<forall>r' \<in> set rows. created_at r' \<le> created_at r))) \<and>
     (\<forall>r f db1. newest rows = Some r \<and>
        find (\<lambda>file. prefix (version r @ ''_'') file \<and> is_sql file) (map fst d) = Some f \<and>
        exec (userdb w) (down_sql (contents d f)) = (True, db1) \<longrightarrow>
          migrateDown exec True scriptsDir Migration w =
            (Done,
             w\<lparr>userdb := db1,
               tables := (tables w)(Migration \<mapsto> filter (\<lambda>x. version x \<noteq> version r) rows),
               trace := trace w @ [(SelectLatest Migration, True),
                 (Script (down_sql (contents d f)), True),
                 (DeleteVersion Migration (version r), True)]\<rparr>) \<and>
          set (map version (filter (\<lambda>x. version x \<noteq> version r) rows)) =
            set (map version rows) - {version r}) \<and>
     (\<forall>r. newest rows = Some r \<and>
        find (\<lambda>file. prefix (version r @ ''_'') file \<and> is_sql file) (map fst d) = None \<longrightarrow>
          migrateDown exec True scriptsDir Migration w =
            (Exit1 (ScriptVersionNotFound (version r)), log (SelectLatest Migration) True w)) \<and>
     (\<forall>r f db1. newest rows = Some r \<and>
        find (\<lambda>file. prefix (version r @ ''_'') file \<and> is_sql file) (map fst d) = Some f \<and>
        exec (userdb w) (down_sql (contents d f)) = (False, db1) \<longrightarrow>
          migrateDown exec True scriptsDir Migration w =
            (Exit1 QueryError,
             w\<lparr>userdb := db1,
               trace := trace w @ [(SelectLatest Migration, True),
                 (Script (down_sql (contents d f)), False)]\<rparr>)) \<and>
     (\<forall>db'. run_all exec (userdb w)
          (map (\<lambda>file. down_sql (contents d file))
             (revert_files (map fst d) (card (set (map version rows))) rows))
          = (card (set (map version rows)), db') \<longrightarrow>
        (\<exists>w'. repeat_down exec scriptsDir (card (set (map version rows))) w = (Done, w') \<and>
           tables w' = (tables w)(Migration \<mapsto> []) \<and> userdb w' = db' \<and>
           migrateDown exec True scriptsDir Migration w' =
             (Exit1 NoRows, log (SelectLatest Migration) True w')))"
proof (intro conjI impI allI)
  assume "rows = []"
  with assms(1) show "migrateDown exec True scriptsDir Migration w =
      (Exit1 NoRows, log (SelectLatest Migration) True w)"
    by (simp add: migrateDown_empty)
next
  assume "rows \<noteq> []"
  then obtain r where r: "newest rows = Some r"
    by (cases "newest rows") (simp_all add: newest_Nil)
  with newest_greatest [OF r]
  show "\<exists>r. newest rows = Some r \<and> r \<in> set rows \<and>
      (\<forall>r' \<in> set rows. created_at r' \<le> created_at r)"
    by blast
next
  fix r f db1
  assume a: "newest rows = Some r \<and>
    find (\<lambda>file. prefix (version r @ ''_'') file \<and> is_sql file) (map fst d) = Some f \<and>
    exec (userdb w) (down_sql (contents d f)) = (True, db1)"
  then have n: "newest rows = Some r"
    and f: "find (\<lambda>file. prefix (version r @ ''_'') file \<and> is_sql file) (map fst d) = Some f"
    and e: "exec (userdb w) (down_sql (contents d f)) = (True, db1)"
    by blast+
  show "migrateDown exec True scriptsDir Migration w =
      (Done,
       w\<lparr>userdb := db1,
         tables := (tables w)(Migration \<mapsto> filter (\<lambda>x. version x \<noteq> version r) rows),
         trace := trace w @ [(SelectLatest Migration, True),
           (Script (down_sql (contents d f)), True),
           (DeleteVersion Migration (version r), True)]\<rparr>)"
    by (rule migrateDown_step [where exec = exec, OF assms(1) n assms(2) f e])
  show "set (map version (filter (\<lambda>x. version x \<noteq> version r) rows)) =
      set (map version rows) - {version r}"
    by (rule versions_without)
next
  fix r
  assume "newest rows = Some r \<and>
    find (\<lambda>file. prefix (version r @ ''_'') file \<and> is_sql file) (map fst d) = None"
  then have n: "newest rows = Some r"
    and f: "find (\<lambda>file. prefix (version r @ ''_'') file \<and> is_sql file) (map fst d) = None"
    by blast+
  show "migrateDown exec True scriptsDir Migration w =
      (Exit1 (ScriptVersionNotFound (version r)), log (SelectLatest Migration) True w)"
    by (rule migrateDown_not_found [OF assms(1) n assms(2) f])
next
  fix r f db1
  assume "newest rows = Some r \<and>
    find (\<lambda>file. prefix (version r @ ''_'') file \<and> is_sql file) (map fst d) = Some f \<and>
    exec (userdb w) (down_sql (contents d f)) = (False, db1)"
  then have n: "newest rows = Some r"
    and f: "find (\<lambda>file. prefix (version r @ ''_'') file \<and> is_sql file) (map fst d) = Some f"
    and e: "exec (userdb w) (down_sql (contents d f)) = (False, db1)"
    by blast+
  show "migrateDown exec True scriptsDir Migration w =
      (Exit1 QueryError,
       w\<lparr>userdb := db1,
         trace := trace w @ [(SelectLatest Migration, True),
           (Script (down_sql (contents d f)), False)]\<rparr>)"
    by (rule migrateDown_script_fails [where exec = exec, OF assms(1) n assms(2) f e])
next
  fix db'
  let ?n = "card (set (map version rows))"
  assume "run_all exec (userdb w)
      (map (\<lambda>file. down_sql (contents d file)) (revert_files (map fst d) ?n rows))
      = (?n, db')"
  from repeat_down_run [OF assms(2,1) this]
  obtain w' where w': "repeat_down exec scriptsDir ?n w = (Done, w')"
    "tables w' = (tables w)(Migration \<mapsto> revert_rows ?n rows)" "userdb w' = db'"
    by blast
  have "card (set (map version (revert_rows ?n rows))) = 0"
    using revert_rows_card [of ?n rows] by simp
  then have e: "revert_rows ?n rows = []" by simp
  with w'(2) have "tables w' Migration = Some []" by simp
  then have "migrateDown exec True scriptsDir Migration w' =
      (Exit1 NoRows, log (SelectLatest Migration) True w')"
    by (rule migrateDown_empty)
  with w' e show "\<exists>w'. repeat_down exec scriptsDir ?n w = (Done, w') \<and>
      tables w' = (tables w)(Migration \<mapsto> []) \<and> userdb w' = db' \<and>
      migrateDown exec True scriptsDir Migration w' =
        (Exit1 NoRows, log (SelectLatest Migration) True w')"
    by (intro exI [of _ w']) simp
qed

theorem migrateDown_one_step_witness:
  "tables (world_of (Some [applied ''20240102000000'' 1003, applied ''20240101000000'' 1001])
      None [init_sql, users_sql]) Migration
     = Some [applied ''20240102000000'' 1003, applied ''20240101000000'' 1001] \<and>
   newest [applied ''20240102000000'' 1003, applied ''20240101000000'' 1001]
     = Some (applied ''20240102000000'' 1003) \<and>
   find (\<lambda>file. prefix (version (applied ''20240102000000'' 1003) @ ''_'') file \<and> is_sql file)
     (map fst [init_sql, users_sql]) = Some (fst users_sql) \<and>
   exec_once [] (down_sql (contents [init_sql, users_sql] (fst users_sql)))
     = (True, [down_sql (snd users_sql)]) \<and>
   (\<exists>w'. migrateDown exec_once True ''db/postgres/migration'' Migration
        (world_of (Some [applied ''20240102000000'' 1003, applied ''20240101000000'' 1001])
           None [init_sql, users_sql]) = (Done, w') \<and>
      trace w' = [(SelectLatest Migration, True),
         (Script (down_sql (snd users_sql)), True),
         (DeleteVersion Migration ''20240102000000'', True)] \<and>
      tables w' Migration = Some [applied ''20240101000000'' 1001]) \<and>
   revert_files (map fst [init_sql, users_sql]) 2
     [applied ''20240102000000'' 1003, applied ''20240101000000'' 1001]
     = [fst users_sql, fst init_sql] \<and>
   (\<exists>w'. repeat_down exec_once ''db/postgres/migration'' 2
       (world_of (Some [applied ''20240102000000'' 1003, applied ''20240101000000'' 1001])
          None [init_sql, users_sql]) = (Done, w') \<and>
     tables w' Migration = Some [] \<and>
     userdb w' = [down_sql (snd users_sql), down_sql (snd init_sql)] \<and>
     migrateDown exec_once True ''db/postgres/migration'' Migration w' =
       (Exit1 NoRows, log (SelectLatest Migration) True w')) \<and>
   migrateDown exec_once True ''db/postgres/migration'' Migration
     (world_of (Some []) None [init_sql, users_sql])
     = (Exit1 NoRows,
        log (SelectLatest Migration) True (world_of (Some []) None [init_sql, users_sql])) \<and>
   find (\<lambda>file. prefix (version (applied ''20240102000000'' 1003) @ ''_'') file \<and> is_sql file)
     (map fst [init_sql]) = None \<and>
   migrateDown exec_once True ''db/postgres/migration'' Migration
     (world_of (Some [applied ''20240102000000'' 1003, applied ''20240101000000'' 1001])
        None [init_sql])
     = (Exit1 (ScriptVersionNotFound ''20240102000000''),
        log (SelectLatest Migration) True
          (world_of (Some [applied ''20240102000000'' 1003, applied ''20240101000000'' 1001])
             None [init_sql])) \<and>
   exec_failing (down_sql (snd users_sql)) []
     (down_sql (contents [init_sql, users_sql] (fst users_sql))) = (False, []) \<and>
   fst (migrateDown (exec_failing (down_sql (snd users_sql))) True ''db/postgres/migration''
     Migration
     (world_of (Some [applied ''20240102000000'' 1003, applied ''20240101000000'' 1001])
        None [init_sql, users_sql])) = Exit1 QueryError \<and>
   tables (snd (migrateDown (exec_failing (down_sql (snd users_sql))) True
     ''db/postgres/migration'' Migration
     (world_of (Some [applied ''20240102000000'' 1003, applied ''20240101000000'' 1001])
        None [init_sql, users_sql]))) Migration
     = Some [applied ''20240102000000'' 1003, applied ''20240101000000'' 1001]"
proof -
  let ?rows = "[applied ''20240102000000'' 1003, applied ''20240101000000'' 1001]"
  let ?d = "[init_sql, users_sql]"
  let ?w = "world_of (Some ?rows) None ?d"
  let ?r = "applied ''20240102000000'' 1003"
  have h1: "tables ?w Migration = Some ?rows" by (simp add: world_of_def)
  have h2: "dirs ?w ''db/postgres/migration'' = Some ?d" by (simp add: world_of_def)
  have t: "trace ?w = []" "userdb ?w = []" by (simp_all add: world_of_def)
  have n: "newest ?rows = Some ?r" by code_simp
  have f: "find (\<lambda>file. prefix (version ?r @ ''_'') file \<and> is_sql file) (map fst ?d)
      = Some (fst users_sql)"
    by code_simp
  have e: "exec_once [] (down_sql (contents ?d (fst users_sql)))
      = (True, [down_sql (snd users_sql)])"
    by code_simp
  have e': "exec_once (userdb ?w) (down_sql (contents ?d (fst users_sql)))
      = (True, [down_sql (snd users_sql)])"
    using e by (simp add: t)
  have c: "card (set (map version ?rows)) = 2" by code_simp
  have rf: "revert_files (map fst ?d) 2 ?rows = [fst users_sql, fst init_sql]" by code_simp
  have "run_all exec_once [] (map (\<lambda>file. down_sql (contents ?d file))
      [fst users_sql, fst init_sql]) = (2, [down_sql (snd users_sql), down_sql (snd init_sql)])"
    by code_simp
  then have ra: "run_all exec_once (userdb ?w)
      (map (\<lambda>file. down_sql (contents ?d file))
         (revert_files (map fst ?d) (card (set (map version ?rows))) ?rows))
      = (card (set (map version ?rows)), [down_sql (snd users_sql), down_sql (snd init_sql)])"
    by (simp only: c rf t)
  have k: "filter (\<lambda>x. version x \<noteq> version ?r) ?rows = [applied ''20240101000000'' 1001]"
    by code_simp
  have s: "contents ?d (fst users_sql) = snd users_sql" "version ?r = ''20240102000000''"
    by code_simp+
  let ?w1 = "?w\<lparr>userdb := [down_sql (snd users_sql)],
      tables := (tables ?w)(Migration \<mapsto> filter (\<lambda>x. version x \<noteq> version ?r) ?rows),
      trace := trace ?w @ [(SelectLatest Migration, True),
        (Script (down_sql (contents ?d (fst users_sql))), True),
        (DeleteVersion Migration (version ?r), True)]\<rparr>"
  note inst = migrateDown_one_step [OF h1 h2, of exec_once]
  from inst n f e' have step:
    "migrateDown exec_once True ''db/postgres/migration'' Migration ?w = (Done, ?w1)"
    by blast
  have "trace ?w1 = [(SelectLatest Migration, True),
      (Script (down_sql (snd users_sql)), True),
      (DeleteVersion Migration ''20240102000000'', True)]"
    by (simp add: t s)
  moreover have "tables ?w1 Migration = Some [applied ''20240101000000'' 1001]"
    by (simp only: k) simp
  ultimately have one: "\<exists>w'. migrateDown exec_once True ''db/postgres/migration'' Migration ?w
        = (Done, w') \<and>
      trace w' = [(SelectLatest Migration, True),
         (Script (down_sql (snd users_sql)), True),
         (DeleteVersion Migration ''20240102000000'', True)] \<and>
      tables w' Migration = Some [applied ''20240101000000'' 1001]"
    using step by blast
  from inst ra obtain w'' where w'':
    "repeat_down exec_once ''db/postgres/migration'' (card (set (map version ?rows))) ?w
       = (Done, w'')"
    "tables w'' = (tables ?w)(Migration \<mapsto> [])"
    "userdb w'' = [down_sql (snd users_sql), down_sql (snd init_sql)]"
    "migrateDown exec_once True ''db/postgres/migration'' Migration w'' =
       (Exit1 NoRows, log (SelectLatest Migration) True w'')"
    by blast
  from w''(2) have "tables w'' Migration = Some []" by simp
  with w''(1,3,4) have all: "\<exists>w'. repeat_down exec_once ''db/postgres/migration'' 2 ?w
        = (Done, w') \<and>
      tables w' Migration = Some [] \<and>
      userdb w' = [down_sql (snd users_sql), down_sql (snd init_sql)] \<and>
      migrateDown exec_once True ''db/postgres/migration'' Migration w' =
        (Exit1 NoRows, log (SelectLatest Migration) True w')"
    unfolding c by blast
  let ?we = "world_of (Some []) None ?d"
  have "tables ?we Migration = Some []" "dirs ?we ''db/postgres/migration'' = Some ?d"
    by (simp_all add: world_of_def)
  from migrateDown_one_step [OF this, of exec_once, THEN conjunct1, THEN mp, OF refl]
  have empty: "migrateDown exec_once True ''db/postgres/migration'' Migration ?we
      = (Exit1 NoRows, log (SelectLatest Migration) True ?we)" .
  let ?wm = "world_of (Some ?rows) None [init_sql]"
  have hm: "tables ?wm Migration = Some ?rows" "dirs ?wm ''db/postgres/migration'' = Some [init_sql]"
    by (simp_all add: world_of_def)
  have fm: "find (\<lambda>file. prefix (version ?r @ ''_'') file \<and> is_sql file) (map fst [init_sql])
      = None"
    by code_simp
  from migrateDown_one_step [OF hm, of exec_once] n fm
  have "migrateDown exec_once True ''db/postgres/migration'' Migration ?wm
      = (Exit1 (ScriptVersionNotFound (version ?r)), log (SelectLatest Migration) True ?wm)"
    by blast
  then have missing: "migrateDown exec_once True ''db/postgres/migration'' Migration ?wm
      = (Exit1 (ScriptVersionNotFound ''20240102000000''),
         log (SelectLatest Migration) True ?wm)"
    by (simp only: s)
  let ?bad = "exec_failing (down_sql (snd users_sql))"
  have ef: "?bad [] (down_sql (contents ?d (fst users_sql))) = (False, [])" by code_simp
  then have ef': "?bad (userdb ?w) (down_sql (contents ?d (fst users_sql))) = (False, [])"
    by (simp add: t)
  from migrateDown_one_step [OF h1 h2, of ?bad] n f ef'
  have "migrateDown ?bad True ''db/postgres/migration'' Migration ?w
      = (Exit1 QueryError,
         ?w\<lparr>userdb := [],
           trace := trace ?w @ [(SelectLatest Migration, True),
             (Script (down_sql (contents ?d (fst users_sql))), False)]\<rparr>)"
    by blast
  then have failing: "fst (migrateDown ?bad True ''db/postgres/migration'' Migration ?w)
        = Exit1 QueryError"
      "tables (snd (migrateDown ?bad True ''db/postgres/migration'' Migration ?w)) Migration
        = Some ?rows"
    using h1 by simp_all
  from h1 n f e one rf all empty fm missing ef failing show ?thesis
    by (intro conjI) assumption+
qed

section \<open>Properties of Reset\<close>

lemma reset_loop_run:
  assumes "dirs w scriptsDir = Some d" and "set files \<subseteq> fst ` set d"
    and "run_all exec (userdb w) (map (\<lambda>file. down_sql (contents d file)) files) = (n, db')"
  shows "reset_loop exec scriptsDir files w =
      (if n = length files then Done else Exit1 QueryError,
       w\<lparr>userdb := db',
         trace := trace w @ down_steps d (take n files) @
           (if n = length files then []
            else [(Script (down_sql (contents d (files ! n))), False)])\<rparr>) \<and>
     n \<le> length files"
  using assms
proof (induction files arbitrary: w n)
  case Nil
  then show ?case by (simp add: down_steps_def)
next
  case (Cons f fs)
  from Cons.prems(1,2) have rd: "readFileSync w scriptsDir f = Some (contents d f)"
    by (simp add: readFileSync_contents)
  obtain ok db1 where ex: "exec (userdb w) (down_sql (contents d f)) = (ok, db1)"
    by (cases "exec (userdb w) (down_sql (contents d f))")
  show ?case
  proof (cases ok)
    case False
    with ex Cons.prems(3) have "n = 0" "db' = db1" by auto
    with False ex rd show ?thesis
      by (simp add: run_script_def down_steps_def log_def)
  next
    case True
    obtain m where m: "run_all exec db1 (map (\<lambda>file. down_sql (contents d file)) fs) = (m, db')"
      "n = Suc m"
      using Cons.prems(3) ex True by (auto split: prod.splits)
    let ?w1 = "log (Script (down_sql (contents d f))) True (w\<lparr>userdb := db1\<rparr>)"
    have s1: "run_script exec (down_sql (contents d f)) w = (True, ?w1)"
      using ex True by (simp add: run_script_def)
    have "dirs ?w1 scriptsDir = Some d" "set fs \<subseteq> fst ` set d"
      "run_all exec (userdb ?w1) (map (\<lambda>file. down_sql (contents d file)) fs) = (m, db')"
      using Cons.prems(1,2) m(1) by simp_all
    from Cons.IH [OF this] rd s1 m(2) show ?thesis
      by (simp add: down_steps_def log_def)
  qed
qed

lemma reset_files_filter:
  "reset_files versions (map fst d) =
     rev (sort (filter (\<lambda>file. version_of file \<in> set versions) (sql_files d)))"
  by (simp add: reset_files_def sql_files_def conj_commute)

lemma set_reset_files:
  "set (reset_files versions (map fst d)) =
     {file \<in> set (sql_files d). version_of file \<in> set versions}"
  by (auto simp: reset_files_filter)

lemma reset_files_versions:
  assumes "distinct (map version_of (sql_files d))"
  shows "length (reset_files versions (map fst d)) =
     card (set versions \<inter> version_of ` set (sql_files d))"
proof -
  let ?S = "filter (\<lambda>file. version_of file \<in> set versions) (sql_files d)"
  have "map version_of ?S = filter (\<lambda>v. v \<in> set versions) (map version_of (sql_files d))"
    by (simp add: filter_map comp_def)
  with assms have "distinct (map version_of ?S)" by simp
  then have "length ?S = card (set (map version_of ?S))"
    by (metis distinct_card length_map)
  moreover have "set (map version_of ?S) = set versions \<inter> version_of ` set (sql_files d)"
    by auto
  ultimately show ?thesis by (simp add: reset_files_filter)
qed

lemma reset_files_count:
  assumes "distinct (map version_of (sql_files d))" and "distinct versions"
    and "set versions \<subseteq> version_of ` set (sql_files d)"
  shows "length (reset_files versions (map fst d)) = length versions"
proof -
  from assms(3) have "set versions \<inter> version_of ` set (sql_files d) = set versions" by auto
  with reset_files_versions [OF assms(1), of versions] assms(2) show ?thesis
    by (simp add: distinct_card)
qed

lemma reset_files_short:
  assumes "distinct (map version_of (sql_files d))"
    and "v \<in> set versions" and "v \<notin> version_of ` set (sql_files d)"
  shows "length (reset_files versions (map fst d)) < length versions"
proof -
  from assms(2,3) have "set versions \<inter> version_of ` set (sql_files d) \<subset> set versions" by auto
  then have "card (set versions \<inter> version_of ` set (sql_files d)) < card (set versions)"
    by (intro psubset_card_mono) simp_all
  also have "\<dots> \<le> length versions" by (rule card_length)
  finally show ?thesis using reset_files_versions [OF assms(1), of versions] by simp
qed

lemma migrateReset_unfold:
  assumes "tables w Migration = Some rows" and "dirs w scriptsDir = Some d"
  shows "migrateReset exec True scriptsDir Migration w =
     (if length (reset_files (map version rows) (map fst d)) \<noteq> length rows then
        (Exit1 (MissingVersion
           (filter (\<lambda>v. v \<notin> version_of ` set (reset_files (map version rows) (map fst d)))
              (map version rows))),
         log (SelectVersions Migration) True w)
      else
        (case reset_loop exec scriptsDir (reset_files (map version rows) (map fst d))
                (log (SelectVersions Migration) True w) of
           (Done, w2) \<Rightarrow>
             (case delete_all Migration w2 of
                (False, w3) \<Rightarrow> (Exit1 QueryError, w3)
              | (True, w3) \<Rightarrow>
                  (case drop_table Seed w3 of
                     (False, w4) \<Rightarrow> (Exit1 QueryError, w4)
                   | (True, w4) \<Rightarrow> (Done, w4)))
         | (failed, w2) \<Rightarrow> (failed, w2)))"
  using assms
  by (simp add: migrateReset_def select_versions_def readdirSync_def Let_def)

text \<open>
  C7, as amended. Let the \<open>.sql\<close> files of the script directory have pairwise distinct
  versions, and let some version in the migrations ledger have no \<open>.sql\<close> file. Then
  \<open>migrateReset\<close> ends in its \<open>catch\<close> block with the error "Missing version" listing exactly
  the ledger's versions that have no file; the only statement it has sent is the \<open>SELECT\<close>,
  so no script has run and the ledger tables are unchanged.
\<close>

theorem migrateReset_missing_script:
  assumes "tables w Migration = Some rows" and "dirs w scriptsDir = Some d"
    and "distinct (map version_of (sql_files d))"
    and "\<exists>v \<in> set (map version rows). v \<notin> version_of ` set (sql_files d)"
  shows "migrateReset exec True scriptsDir Migration w =
     (Exit1 (MissingVersion
        (filter (\<lambda>v. v \<notin> version_of ` set (sql_files d)) (map version rows))),
      log (SelectVersions Migration) True w) \<and>
     filter (\<lambda>v. v \<notin> version_of ` set (sql_files d)) (map version rows) \<noteq> []"
proof -
  let ?versions = "map version rows"
  let ?files = "reset_files ?versions (map fst d)"
  from assms(4) obtain v where v: "v \<in> set ?versions" "v \<notin> version_of ` set (sql_files d)"
    by blast
  from reset_files_short [OF assms(3) v] have "length ?files \<noteq> length rows" by simp
  moreover have "filter (\<lambda>v. v \<notin> version_of ` set ?files) ?versions =
      filter (\<lambda>v. v \<notin> version_of ` set (sql_files d)) ?versions"
  proof (rule filter_cong)
    fix v assume "v \<in> set ?versions"
    then show "(v \<notin> version_of ` set ?files) = (v \<notin> version_of ` set (sql_files d))"
      unfolding set_reset_files by blast
  qed simp
  moreover from v have "filter (\<lambda>v. v \<notin> version_of ` set (sql_files d)) ?versions \<noteq> []"
    by (auto simp: filter_empty_conv)
  ultimately show ?thesis
    by (simp add: migrateReset_unfold [OF assms(1,2)])
qed

theorem migrateReset_missing_script_witness:
  "tables (world_of (Some [applied ''20240101000000'' 1001, applied ''20240102000000'' 1003])
      (Some []) [init_sql]) Migration
     = Some [applied ''20240101000000'' 1001, applied ''20240102000000'' 1003] \<and>
   distinct (map version_of (sql_files [init_sql])) \<and>
   migrateReset exec_ok True ''db/postgres/migration'' Migration
     (world_of (Some [applied ''20240101000000'' 1001, applied ''20240102000000'' 1003])
        (Some []) [init_sql])
     = (Exit1 (MissingVersion [''20240102000000'']),
        log (SelectVersions Migration) True
          (world_of (Some [applied ''20240101000000'' 1001, applied ''20240102000000'' 1003])
             (Some []) [init_sql]))"
proof -
  let ?rows = "[applied ''20240101000000'' 1001, applied ''20240102000000'' 1003]"
  let ?d = "[init_sql]"
  let ?w = "world_of (Some ?rows) (Some []) ?d"
  have h1: "tables ?w Migration = Some ?rows" by (simp add: world_of_def)
  have h2: "dirs ?w ''db/postgres/migration'' = Some ?d" by (simp add: world_of_def)
  have h3: "distinct (map version_of (sql_files ?d))" by code_simp
  have h4: "\<exists>v \<in> set (map version ?rows). v \<notin> version_of ` set (sql_files ?d)"
    by code_simp
  have m: "filter (\<lambda>v. v \<notin> version_of ` set (sql_files ?d)) (map version ?rows)
      = [''20240102000000'']"
    by code_simp
  from migrateReset_missing_script [OF h1 h2 h3 h4, of exec_ok] h1 h3 show ?thesis
    unfolding m by blast
qed

text \<open>
  C7 as stated fails when two \<open>.sql\<close> files share a version: the check compares the number
  of matching files with the number of rows. Below, version \<open>2\<close> is applied and has no file,
  the two files of version \<open>1\<close> make the numbers equal, and \<open>migrateReset\<close> returns after
  running both \<open>DOWN\<close> bodies and emptying the ledger.
\<close>

theorem migrateReset_missing_script_counterexample:
  "''2'' \<in> set (map version [applied ''1'' 1001, applied ''2'' 1003]) \<and>
   ''2'' \<notin> version_of ` set (sql_files [(''1_a.sql'', script ''a;'' ''drop a;''),
                                           (''1_b.sql'', script ''b;'' ''drop b;'')]) \<and>
   fst (migrateReset exec_ok True ''db/postgres/migration'' Migration
     (world_of (Some [applied ''1'' 1001, applied ''2'' 1003]) None
        [(''1_a.sql'', script ''a;'' ''drop a;''), (''1_b.sql'', script ''b;'' ''drop b;'')]))
     = Done \<and>
   tables (snd (migrateReset exec_ok True ''db/postgres/migration'' Migration
     (world_of (Some [applied ''1'' 1001, applied ''2'' 1003]) None
        [(''1_a.sql'', script ''a;'' ''drop a;''), (''1_b.sql'', script ''b;'' ''drop b;'')])))
     Migration = Some [] \<and>
   userdb (snd (migrateReset exec_ok True ''db/postgres/migration'' Migration
     (world_of (Some [applied ''1'' 1001, applied ''2'' 1003]) None
        [(''1_a.sql'', script ''a;'' ''drop a;''), (''1_b.sql'', script ''b;'' ''drop b;'')])))
     = [nl @ ''drop b;'' @ nl, nl @ ''drop a;'' @ nl]"
  by code_simp

text \<open>
  C1, as amended. Let every applied version have a \<open>.sql\<close> file, let the number of matched
  files (the \<open>.sql\<close> files whose version is applied) equal the number of rows of the
  migrations ledger, as it does when versions are unique in the ledger and on disk, and
  let the \<open>DOWN\<close> bodies of the matched files, sent in descending order of file name to the
  database as the run finds it, run without error one after the other. Then \<open>migrateReset\<close>
  returns; after the \<open>SELECT\<close> the run sends those \<open>DOWN\<close> bodies in that order, then the
  \<open>DELETE\<close> of all rows of the migrations ledger, then \<open>DROP TABLE IF EXISTS\<close> on the seeds
  ledger. Afterwards the migrations ledger table exists and is empty, and the seeds ledger
  table does not exist.
\<close>

theorem migrateReset_rolls_back:
  assumes "tables w Migration = Some rows" and "dirs w scriptsDir = Some d"
    and "set (map version rows) \<subseteq> version_of ` set (sql_files d)"
    and "length (reset_files (map version rows) (map fst d)) = length rows"
    and "run_all exec (userdb w)
           (map (\<lambda>file. down_sql (contents d file)) (reset_files (map version rows) (map fst d)))
         = (length (reset_files (map version rows) (map fst d)), db')"
  shows "\<exists>w'. migrateReset exec True scriptsDir Migration w = (Done, w') \<and>
     reset_files (map version rows) (map fst d) =
       rev (sort (filter (\<lambda>file. version_of file \<in> set (map version rows)) (sql_files d))) \<and>
     trace w' = trace w @ (SelectVersions Migration, True) #
       down_steps d (reset_files (map version rows) (map fst d)) @
       [(DeleteAll Migration, True), (DropTable Seed, True)] \<and>
     tables w' Migration = Some [] \<and> tables w' Seed = None \<and>
     userdb w' = db' \<and> dirs w' = dirs w"
proof -
  let ?files = "reset_files (map version rows) (map fst d)"
  let ?w0 = "log (SelectVersions Migration) True w"
  have run: "run_all exec (userdb ?w0) (map (\<lambda>file. down_sql (contents d file)) ?files)
       = (length ?files, db')"
    using assms(5) by simp
  have "dirs ?w0 scriptsDir = Some d" "set ?files \<subseteq> fst ` set d"
    using assms(2) by (auto simp: set_reset_files sql_files_def)
  from reset_loop_run [OF this run]
  have loop: "reset_loop exec scriptsDir ?files ?w0 =
      (Done, ?w0\<lparr>userdb := db', trace := trace ?w0 @ down_steps d ?files\<rparr>)"
    by simp
  let ?w' = "log (DropTable Seed) True
      ((log (DeleteAll Migration) True
         (?w0\<lparr>userdb := db', trace := trace ?w0 @ down_steps d ?files,
               tables := (tables w)(Migration \<mapsto> [])\<rparr>))
       \<lparr>tables := (tables w)(Migration \<mapsto> [], Seed := None)\<rparr>)"
  have "migrateReset exec True scriptsDir Migration w = (Done, ?w')"
    using assms(1,4)
    by (simp add: migrateReset_unfold [OF assms(1,2)] loop delete_all_def drop_table_def)
  moreover have "trace ?w' = trace w @ (SelectVersions Migration, True) #
       down_steps d ?files @ [(DeleteAll Migration, True), (DropTable Seed, True)]"
    by simp
  moreover have "tables ?w' Migration = Some []" "tables ?w' Seed = None"
    "userdb ?w' = db'" "dirs ?w' = dirs w"
    by simp_all
  ultimately show ?thesis
    using reset_files_filter [of "map version rows" d] by blast
qed

theorem migrateReset_rolls_back_witness:
  "tables (world_of (Some [applied ''20240101000000'' 1001, applied ''20240102000000'' 1003])
      (Some [applied ''20240104000000'' 1005])
      [init_sql, (''README.md'', ''notes''), posts_sql, users_sql]) Migration
     = Some [applied ''20240101000000'' 1001, applied ''20240102000000'' 1003] \<and>
   reset_files (map version [applied ''20240101000000'' 1001, applied ''20240102000000'' 1003])
     (map fst [init_sql, (''README.md'', ''notes''), posts_sql, users_sql])
     = [fst users_sql, fst init_sql] \<and>
   run_all exec_once []
     (map (\<lambda>file. down_sql (contents [init_sql, (''README.md'', ''notes''), posts_sql, users_sql]
        file)) [fst users_sql, fst init_sql])
     = (2, [down_sql (snd users_sql), down_sql (snd init_sql)]) \<and>
   (\<exists>w'. migrateReset exec_once True ''db/postgres/migration'' Migration
       (world_of (Some [applied ''20240101000000'' 1001, applied ''20240102000000'' 1003])
          (Some [applied ''20240104000000'' 1005])
          [init_sql, (''README.md'', ''notes''), posts_sql, users_sql]) = (Done, w') \<and>
     trace w' = [(SelectVersions Migration, True),
       (Script (down_sql (snd users_sql)), True), (Script (down_sql (snd init_sql)), True),
       (DeleteAll Migration, True), (DropTable Seed, True)] \<and>
     tables w' Migration = Some [] \<and> tables w' Seed = None)"
proof -
  let ?rows = "[applied ''20240101000000'' 1001, applied ''20240102000000'' 1003]"
  let ?d = "[init_sql, (''README.md'', ''notes''), posts_sql, users_sql]"
  let ?w = "world_of (Some ?rows) (Some [applied ''20240104000000'' 1005]) ?d"
  have h1: "tables ?w Migration = Some ?rows" by (simp add: world_of_def)
  have h2: "dirs ?w ''db/postgres/migration'' = Some ?d" by (simp add: world_of_def)
  have h3: "set (map version ?rows) \<subseteq> version_of ` set (sql_files ?d)" by code_simp
  have f: "reset_files (map version ?rows) (map fst ?d) = [fst users_sql, fst init_sql]"
    by code_simp
  have h4: "length (reset_files (map version ?rows) (map fst ?d)) = length ?rows"
    unfolding f by simp
  have r: "run_all exec_once [] (map (\<lambda>file. down_sql (contents ?d file))
      [fst users_sql, fst init_sql]) = (2, [down_sql (snd users_sql), down_sql (snd init_sql)])"
    by code_simp
  have h5: "run_all exec_once (userdb ?w)
      (map (\<lambda>file. down_sql (contents ?d file)) (reset_files (map version ?rows) (map fst ?d)))
      = (length (reset_files (map version ?rows) (map fst ?d)),
         [down_sql (snd users_sql), down_sql (snd init_sql)])"
    unfolding f using r by (simp add: world_of_def)
  have t: "trace ?w = []" by (simp add: world_of_def)
  have s: "down_steps ?d [fst users_sql, fst init_sql] =
      [(Script (down_sql (snd users_sql)), True), (Script (down_sql (snd init_sql)), True)]"
    by code_simp
  from migrateReset_rolls_back [OF h1 h2 h3 h4 h5]
  obtain w' where
    "migrateReset exec_once True ''db/postgres/migration'' Migration ?w = (Done, w')"
    "trace w' = trace ?w @ (SelectVersions Migration, True) #
       down_steps ?d (reset_files (map version ?rows) (map fst ?d)) @
       [(DeleteAll Migration, True), (DropTable Seed, True)]"
    "tables w' Migration = Some []" "tables w' Seed = None"
    by blast
  with h1 f r t s show ?thesis by auto
qed

text \<open>
  C1 as stated fails. In the first world the only applied version has its script and the
  run returns, but its last statement drops the seeds ledger, which held a row, and the
  migrations ledger table still exists, empty. In the second world the applied version \<open>1\<close> has a script, two
  files share that version, and the run fails with an empty list of missing versions.
\<close>

theorem migrateReset_drops_ledger_counterexample:
  "fst (migrateReset exec_ok True ''db/postgres/migration'' Migration
     (world_of (Some [applied ''20240101000000'' 1001]) (Some [applied ''20240104000000'' 1005])
        [init_sql])) = Done \<and>
   tables (snd (migrateReset exec_ok True ''db/postgres/migration'' Migration
     (world_of (Some [applied ''20240101000000'' 1001]) (Some [applied ''20240104000000'' 1005])
        [init_sql]))) Migration = Some [] \<and>
   tables (snd (migrateReset exec_ok True ''db/postgres/migration'' Migration
     (world_of (Some [applied ''20240101000000'' 1001]) (Some [applied ''20240104000000'' 1005])
        [init_sql]))) Seed = None \<and>
   trace (snd (migrateReset exec_ok True ''db/postgres/migration'' Migration
     (world_of (Some [applied ''20240101000000'' 1001]) (Some [applied ''20240104000000'' 1005])
        [init_sql])))
     = [(SelectVersions Migration, True), (Script (nl @ ''DROP TABLE t;'' @ nl), True),
        (DeleteAll Migration, True), (DropTable Seed, True)] \<and>
   set (map version [applied ''1'' 1001]) \<subseteq>
     version_of ` set (sql_files [(''1_a.sql'', script ''a;'' ''drop a;''),
                                  (''1_b.sql'', script ''b;'' ''drop b;'')]) \<and>
   fst (migrateReset exec_ok True ''db/postgres/migration'' Migration
     (world_of (Some [applied ''1'' 1001]) None
        [(''1_a.sql'', script ''a;'' ''drop a;''), (''1_b.sql'', script ''b;'' ''drop b;'')]))
     = Exit1 (MissingVersion [])"
  by code_simp

section \<open>Properties of New\<close>

lemma map_of_writeFile: "map_of (writeFile file data d) = (map_of d)(file \<mapsto> data)"
  by (induction d) (auto simp: fun_eq_iff)

lemma names_writeFile:
  "map fst (writeFile file data d) =
     (if file \<in> fst ` set d then map fst d else map fst d @ [file])"
  by (induction d) (auto, force)

lemma template_markers: "sublist UP template \<and> sublist DOWN template"
  by code_simp

lemma sublist_single: "sublist [c] s \<longleftrightarrow> c \<in> set s"
  by (induction s) (auto simp: sublist_Cons_right)

lemma target_flat:
  assumes "CHR ''/'' \<notin> set file"
  shows "target scriptsDir file = (scriptsDir, file)"
proof -
  from assms have "split_at ''/'' file = None"
    by (simp add: split_at_None sublist_single)
  then have "split_js ''/'' file = [file]"
    by (simp add: split_js.simps [of "''/''" "file"])
  then show ?thesis by (simp add: target_def)
qed

lemma writeFileSync_flat:
  assumes "dirs w scriptsDir = Some d"
    and "CHR ''/'' \<notin> set file \<or> readFileSync w scriptsDir file \<noteq> None"
  shows "writeFileSync w scriptsDir file data =
     Some (w\<lparr>dirs := (dirs w)(scriptsDir \<mapsto> writeFile file data d)\<rparr>)"
proof (cases "readFileSync w scriptsDir file \<noteq> None")
  case True
  with assms(1) show ?thesis by (simp add: writeFileSync_def)
next
  case False
  with assms(2) have "target scriptsDir file = (scriptsDir, file)"
    by (simp add: target_flat)
  with False assms(1) show ?thesis by (simp add: writeFileSync_def)
qed

lemma generateMigration_flat:
  assumes "name \<noteq> []" and "CHR ''/'' \<notin> set (timestamp @ ''_'' @ name @ ''.sql'')"
  shows "generateMigration timestamp scriptsDir name k w =
     (Done,
      (case dirs w scriptsDir of
         None \<Rightarrow>
           (mkdirSync w scriptsDir)\<lparr>dirs := (dirs (mkdirSync w scriptsDir))(scriptsDir \<mapsto>
              [(timestamp @ ''_'' @ name @ ''.sql'', template)])\<rparr>
       | Some d \<Rightarrow>
           w\<lparr>dirs := (dirs w)(scriptsDir \<mapsto>
              writeFile (timestamp @ ''_'' @ name @ ''.sql'') template d)\<rparr>))"
proof (cases "dirs w scriptsDir")
  case None
  then have "dirs (mkdirSync w scriptsDir) scriptsDir = Some []"
    by (simp add: mkdirSync_def)
  from writeFileSync_flat [OF this, of "timestamp @ ''_'' @ name @ ''.sql''" template] assms None
  show ?thesis
    by (simp add: generateMigration_def existsSync_def Let_def)
next
  case (Some d)
  from writeFileSync_flat [OF Some, of "timestamp @ ''_'' @ name @ ''.sql''" template] assms Some
  show ?thesis
    by (simp add: generateMigration_def existsSync_def Let_def)
qed

text \<open>
  C8, as amended. With an empty name \<open>generateMigration\<close> throws "name argument required" and
  the world is unchanged, so no file is written. With a non-empty name that contains no
  path separator (the timestamp, digits only, has none) it returns, and afterwards the
  directory exists, as do its parents when it had to be created; the file
  \<open>{timestamp}_{name}.sql\<close> in it holds the template; every other file name, in this or any
  other directory, reads as before (absent if it was absent); every other directory that
  existed is unchanged, as are the ledger tables and the database; and the template
  contains the \<open>UP\<close> marker and the \<open>DOWN\<close> marker.
\<close>

theorem generateMigration_new:
  "(name = [] \<longrightarrow> generateMigration timestamp scriptsDir name k w = (Threw NameRequired, w)) \<and>
   (name \<noteq> [] \<and> CHR ''/'' \<notin> set name \<and> CHR ''/'' \<notin> set timestamp \<longrightarrow>
      (\<exists>w'. generateMigration timestamp scriptsDir name k w = (Done, w') \<and>
         dirs w' scriptsDir \<noteq> None \<and>
         (dirs w scriptsDir = None \<longrightarrow> (\<forall>p \<in> set (parent_dirs scriptsDir). dirs w' p \<noteq> None)) \<and>
         readFileSync w' scriptsDir (timestamp @ ''_'' @ name @ ''.sql'') = Some template \<and>
         (\<forall>p f. p \<noteq> scriptsDir \<or> f \<noteq> timestamp @ ''_'' @ name @ ''.sql'' \<longrightarrow>
            readFileSync w' p f = readFileSync w p f) \<and>
         (\<forall>p. dirs w p \<noteq> None \<and> p \<noteq> scriptsDir \<longrightarrow> dirs w' p = dirs w p) \<and>
         tables w' = tables w \<and> userdb w' = userdb w \<and> trace w' = trace w \<and>
         sublist UP template \<and> sublist DOWN template))"
proof (intro conjI impI)
  assume "name = []"
  then show "generateMigration timestamp scriptsDir name k w = (Threw NameRequired, w)"
    by (simp add: generateMigration_def)
next
  assume a: "name \<noteq> [] \<and> CHR ''/'' \<notin> set name \<and> CHR ''/'' \<notin> set timestamp"
  let ?file = "timestamp @ ''_'' @ name @ ''.sql''"
  from a have name: "name \<noteq> []" and flat: "CHR ''/'' \<notin> set ?file" by auto
  define w' where "w' = (case dirs w scriptsDir of
         None \<Rightarrow>
           (mkdirSync w scriptsDir)\<lparr>dirs := (dirs (mkdirSync w scriptsDir))(scriptsDir \<mapsto>
              [(?file, template)])\<rparr>
       | Some d \<Rightarrow> w\<lparr>dirs := (dirs w)(scriptsDir \<mapsto> writeFile ?file template d)\<rparr>)"
  have run: "generateMigration timestamp scriptsDir name k w = (Done, w')"
    unfolding w'_def using name flat by (rule generateMigration_flat)
  have 1: "dirs w' scriptsDir \<noteq> None"
    unfolding w'_def by (cases "dirs w scriptsDir") simp_all
  have 2: "dirs w scriptsDir = None \<longrightarrow> (\<forall>p \<in> set (parent_dirs scriptsDir). dirs w' p \<noteq> None)"
    unfolding w'_def by (simp add: mkdirSync_def)
  have 3: "readFileSync w' scriptsDir ?file = Some template"
    unfolding w'_def
    by (cases "dirs w scriptsDir") (simp_all add: readFileSync_def map_of_writeFile)
  have 4: "\<forall>p f. p \<noteq> scriptsDir \<or> f \<noteq> ?file \<longrightarrow>
      readFileSync w' p f = readFileSync w p f"
  proof (cases "dirs w scriptsDir")
    case None
    then show ?thesis
      unfolding w'_def by (simp add: readFileSync_def mkdirSync_def)
  next
    case (Some d)
    then show ?thesis
      unfolding w'_def by (simp add: readFileSync_def map_of_writeFile)
  qed
  have 5: "\<forall>p. dirs w p \<noteq> None \<and> p \<noteq> scriptsDir \<longrightarrow> dirs w' p = dirs w p"
    unfolding w'_def by (cases "dirs w scriptsDir") (simp_all add: mkdirSync_def)
  have 6: "tables w' = tables w" "userdb w' = userdb w" "trace w' = trace w"
    unfolding w'_def by (cases "dirs w scriptsDir"; simp add: mkdirSync_def)+
  from template_markers have 7: "sublist UP template" "sublist DOWN template" by simp_all
  show "\<exists>w'. generateMigration timestamp scriptsDir name k w = (Done, w') \<and>
         dirs w' scriptsDir \<noteq> None \<and>
         (dirs w scriptsDir = None \<longrightarrow> (\<forall>p \<in> set (parent_dirs scriptsDir). dirs w' p \<noteq> None)) \<and>
         readFileSync w' scriptsDir (timestamp @ ''_'' @ name @ ''.sql'') = Some template \<and>
         (\<forall>p f. p \<noteq> scriptsDir \<or> f \<noteq> timestamp @ ''_'' @ name @ ''.sql'' \<longrightarrow>
            readFileSync w' p f = readFileSync w p f) \<and>
         (\<forall>p. dirs w p \<noteq> None \<and> p \<noteq> scriptsDir \<longrightarrow> dirs w' p = dirs w p) \<and>
         tables w' = tables w \<and> userdb w' = userdb w \<and> trace w' = trace w \<and>
         sublist UP template \<and> sublist DOWN template"
    by (intro exI [of _ w'] conjI) (rule run 1 2 3 4 5 6 7)+
qed

theorem generateMigration_new_witness:
  "generateMigration ''20240115143022'' ''db/postgres/seed'' [] Seed (world_of None None []) =
     (Threw NameRequired, world_of None None []) \<and>
   ''users'' \<noteq> [] \<and> CHR ''/'' \<notin> set ''users'' \<and> CHR ''/'' \<notin> set ''20240115143022'' \<and>
   dirs (world_of None None []) ''db/postgres/seed'' = None \<and>
   parent_dirs ''db/postgres/seed'' = [''db'', ''db/postgres''] \<and>
   (\<exists>w'. generateMigration ''20240115143022'' ''db/postgres/seed'' ''users'' Seed
          (world_of None None []) = (Done, w') \<and>
      dirs w' ''db'' \<noteq> None \<and> dirs w' ''db/postgres'' \<noteq> None \<and>
      readFileSync w' ''db/postgres/seed'' ''20240115143022_users.sql'' = Some template \<and>
      readFileSync w' ''db/postgres/seed'' ''20240101000000_init.sql'' = None)"
proof -
  let ?w = "world_of None None [] :: string list world"
  have h: "''users'' \<noteq> [] \<and> CHR ''/'' \<notin> set ''users'' \<and> CHR ''/'' \<notin> set ''20240115143022''"
    by simp
  have n: "dirs ?w ''db/postgres/seed'' = None" by (simp add: world_of_def)
  have pd: "parent_dirs ''db/postgres/seed'' = [''db'', ''db/postgres'']" by code_simp
  have r: "readFileSync ?w ''db/postgres/seed'' ''20240101000000_init.sql'' = None"
    by (simp add: readFileSync_def world_of_def)
  have e: "generateMigration ''20240115143022'' ''db/postgres/seed'' [] Seed ?w
      = (Threw NameRequired, ?w)"
    by (rule generateMigration_new
      [of "[]" "''20240115143022''" "''db/postgres/seed''" Seed ?w,
       THEN conjunct1, THEN mp, OF refl])
  note inst = generateMigration_new
      [of "''users''" "''20240115143022''" "''db/postgres/seed''" Seed ?w,
       THEN conjunct2, THEN mp, OF h]
  then obtain w' where w':
    "generateMigration ''20240115143022'' ''db/postgres/seed'' ''users'' Seed ?w = (Done, w')"
    "dirs ?w ''db/postgres/seed'' = None \<longrightarrow>
       (\<forall>p \<in> set (parent_dirs ''db/postgres/seed''). dirs w' p \<noteq> None)"
    "readFileSync w' ''db/postgres/seed'' (''20240115143022'' @ ''_'' @ ''users'' @ ''.sql'')
       = Some template"
    "\<forall>p f. p \<noteq> ''db/postgres/seed'' \<or> f \<noteq> ''20240115143022'' @ ''_'' @ ''users'' @ ''.sql'' \<longrightarrow>
       readFileSync w' p f = readFileSync ?w p f"
    by (elim exE conjE) (rule that, assumption+)
  from w'(2) n have "\<forall>p \<in> set [''db'', ''db/postgres'']. dirs w' p \<noteq> None"
    unfolding pd by (rule mp)
  then have p: "dirs w' ''db'' \<noteq> None" "dirs w' ''db/postgres'' \<noteq> None" by simp_all
  have "''20240101000000_init.sql'' \<noteq> ''20240115143022'' @ ''_'' @ ''users'' @ ''.sql''"
    by simp
  with w'(4) have "readFileSync w' ''db/postgres/seed'' ''20240101000000_init.sql''
      = readFileSync ?w ''db/postgres/seed'' ''20240101000000_init.sql''"
    by blast
  with r have q: "readFileSync w' ''db/postgres/seed'' ''20240101000000_init.sql'' = None"
    by simp
  from w'(3) have f: "readFileSync w' ''db/postgres/seed'' ''20240115143022_users.sql''
      = Some template"
    by simp
  have "\<exists>w'. generateMigration ''20240115143022'' ''db/postgres/seed'' ''users'' Seed ?w
        = (Done, w') \<and>
      dirs w' ''db'' \<noteq> None \<and> dirs w' ''db/postgres'' \<noteq> None \<and>
      readFileSync w' ''db/postgres/seed'' ''20240115143022_users.sql'' = Some template \<and>
      readFileSync w' ''db/postgres/seed'' ''20240101000000_init.sql'' = None"
    by (intro exI [of _ w'] conjI) (rule w'(1) p f q)+
  with e h n pd show ?thesis by (intro conjI) simp_all
qed

text \<open>
  C8 as stated fails for a name with a path separator: below, the directory exists and
  holds one script, the name is \<open>create/users\<close>, the path of the new file lies in the
  directory \<open>20240115143022_create\<close>, which does not exist, and \<open>generateMigration\<close> throws
  without writing a file.
\<close>

theorem generateMigration_separator_counterexample:
  "''create/users'' \<noteq> [] \<and>
   fst (generateMigration ''20240115143022'' ''db/postgres/migration'' ''create/users'' Migration
          (world_of None None [init_sql])) = Threw FsError \<and>
   dirs (snd (generateMigration ''20240115143022'' ''db/postgres/migration'' ''create/users''
          Migration (world_of None None [init_sql]))) ''db/postgres/migration''
     = Some [init_sql] \<and>
   dirs (snd (generateMigration ''20240115143022'' ''db/postgres/migration'' ''create/users''
          Migration (world_of None None [init_sql])))
     ''db/postgres/migration/20240115143022_create'' = None"
  by code_simp

text \<open>
  C10. When the file \<open>{timestamp}_{name}.sql\<close> already exists in the directory,
  \<open>generateMigration\<close> with a non-empty name does not fail: it returns, the file holds the
  template afterwards, whatever it held before, and the directory lists the same names.
\<close>

theorem generateMigration_overwrites:
  assumes "name \<noteq> []"
    and "readFileSync w scriptsDir (timestamp @ ''_'' @ name @ ''.sql'') = Some authored"
  shows "\<exists>w'. generateMigration timestamp scriptsDir name k w = (Done, w') \<and>
     readFileSync w' scriptsDir (timestamp @ ''_'' @ name @ ''.sql'') = Some template \<and>
     readdirSync w' scriptsDir = readdirSync w scriptsDir"
proof -
  let ?file = "timestamp @ ''_'' @ name @ ''.sql''"
  from assms(2) obtain d where d: "dirs w scriptsDir = Some d" "map_of d ?file = Some authored"
    by (auto simp: readFileSync_def split: option.splits)
  from d(2) have "?file \<in> fst ` set d" by (metis map_of_eq_None_iff option.distinct(1))
  then have names: "map fst (writeFile ?file template d) = map fst d"
    by (simp add: names_writeFile)
  from assms(2) have "CHR ''/'' \<notin> set ?file \<or> readFileSync w scriptsDir ?file \<noteq> None"
    by simp
  from writeFileSync_flat [OF d(1) this, of template]
  have "generateMigration timestamp scriptsDir name k w =
      (Done, w\<lparr>dirs := (dirs w)(scriptsDir \<mapsto> writeFile ?file template d)\<rparr>)"
    using assms(1) d(1) by (simp add: generateMigration_def existsSync_def Let_def)
  with names d(1) show ?thesis
    by (simp add: readFileSync_def readdirSync_def map_of_writeFile)
qed

theorem generateMigration_overwrites_witness:
  "''init'' \<noteq> [] \<and>
   readFileSync
     (world_of None None [(''20240115143022_init.sql'', script ''CREATE TABLE t(id int);'' ''DROP TABLE t;'')])
     ''db/postgres/migration'' (''20240115143022'' @ ''_'' @ ''init'' @ ''.sql'')
     = Some (script ''CREATE TABLE t(id int);'' ''DROP TABLE t;'') \<and>
   (\<exists>w'. generateMigration ''20240115143022'' ''db/postgres/migration'' ''init'' Migration
       (world_of None None [(''20240115143022_init.sql'', script ''CREATE TABLE t(id int);'' ''DROP TABLE t;'')])
       = (Done, w') \<and>
     readFileSync w' ''db/postgres/migration'' (''20240115143022'' @ ''_'' @ ''init'' @ ''.sql'')
       = Some template)"
proof -
  let ?w = "world_of None None
    [(''20240115143022_init.sql'', script ''CREATE TABLE t(id int);'' ''DROP TABLE t;'')]"
  have h1: "''init'' \<noteq> []" by simp
  have h2: "readFileSync ?w ''db/postgres/migration''
      (''20240115143022'' @ ''_'' @ ''init'' @ ''.sql'')
      = Some (script ''CREATE TABLE t(id int);'' ''DROP TABLE t;'')"
    by (simp add: readFileSync_def world_of_def)
  from generateMigration_overwrites [OF h1 h2, of Migration] h1 h2
  show ?thesis by blast
qed

end
